theory Spec2Isabelle
  imports Complex_Main "HOL-Library.Sublist" "HOL-Library.List_Lexorder" "HOL-Library.Char_ord"
    "HOL-Library.Product_Lexorder"
begin

section \<open>Errors and elementary numerics\<close>

text \<open>
  Python floats are modelled by the real numbers: every arithmetic and trigonometric
  operation is the exact one, so rounding is outside this model. An exception is a value
  of type \<open>error\<close> on the left of a sum.
\<close>

datatype error =
    InvalidInput
  | ValueError
  | KeyError
  | ZeroDivisionError
  | RequestException
  | CvError

text \<open>\<^verbatim>\<open>math.radians\<close>.\<close>

definition radians :: "real \<Rightarrow> real" where
  "radians x = x * pi / 180"

text \<open>\<^verbatim>\<open>math.sqrt\<close> raises \<^verbatim>\<open>ValueError\<close> on a negative argument.\<close>

definition py_sqrt :: "real \<Rightarrow> error + real" where
  "py_sqrt x = (if x < 0 then Inl ValueError else Inr (sqrt x))"

text \<open>\<^verbatim>\<open>math.atan2(y, x)\<close>: the angle of the point \<open>(x, y)\<close>, in \<open>(-pi, pi]\<close>.\<close>

definition atan2 :: "real \<Rightarrow> real \<Rightarrow> real" where
  "atan2 y x =
     (if 0 < x then arctan (y / x)
      else if x < 0 then (if 0 \<le> y then arctan (y / x) + pi else arctan (y / x) - pi)
      else if 0 < y then pi / 2
      else if y < 0 then - (pi / 2)
      else 0)"

section \<open>Geo helpers\<close>

text \<open>The sum under the square roots of \<^verbatim>\<open>haversine_distance_m\<close> (the variable \<^verbatim>\<open>a\<close>).\<close>

definition haversine_a :: "real \<Rightarrow> real \<Rightarrow> real \<Rightarrow> real \<Rightarrow> real" where
  "haversine_a lat1 lon1 lat2 lon2 =
     (let phi1 = radians lat1;
          phi2 = radians lat2;
          dphi = radians (lat2 - lat1);
          dlambda = radians (lon2 - lon1)
      in (sin (dphi / 2))\<^sup>2 + cos phi1 * cos phi2 * (sin (dlambda / 2))\<^sup>2)"

definition haversine_distance_m :: "real \<Rightarrow> real \<Rightarrow> real \<Rightarrow> real \<Rightarrow> error + real" where
  "haversine_distance_m lat1 lon1 lat2 lon2 =
     (let R = 6371000;
          a = haversine_a lat1 lon1 lat2 lon2
      in case py_sqrt a of
           Inl e \<Rightarrow> Inl e
         | Inr sa \<Rightarrow>
             (case py_sqrt (1 - a) of
                Inl e \<Rightarrow> Inl e
              | Inr sb \<Rightarrow> Inr (R * (2 * atan2 sa sb))))"

record bbox =
  min_lat :: real
  max_lat :: real
  min_lon :: real
  max_lon :: real

text \<open>
  \<^verbatim>\<open>bbox_from_point\<close> has no check of its arguments and no failing operation: the divisor
  \<^verbatim>\<open>meters_per_deg_lon\<close> is at least \<open>111320 * 1e-6\<close>. The result type still has the error
  side, so that "the call fails" can be stated.
\<close>

definition bbox_from_point :: "real \<Rightarrow> real \<Rightarrow> real \<Rightarrow> error + bbox" where
  "bbox_from_point lat lon radius_m =
     (let delta_lat = radius_m / 111320;
          lat_rad = radians lat;
          meters_per_deg_lon = 111320 * max (cos lat_rad) (1 / 1000000);
          delta_lon = radius_m / meters_per_deg_lon
      in Inr \<lparr> min_lat = lat - delta_lat,
               max_lat = lat + delta_lat,
               min_lon = lon - delta_lon,
               max_lon = lon + delta_lon \<rparr>)"

definition in_bbox :: "bbox \<Rightarrow> real \<Rightarrow> real \<Rightarrow> bool" where
  "in_bbox b lat lon \<longleftrightarrow>
     min_lat b \<le> lat \<and> lat \<le> max_lat b \<and> min_lon b \<le> lon \<and> lon \<le> max_lon b"

text \<open>
  Two predicates for stating claims about the helpers: the point \<open>(p, q)\<close> lies in the box
  that \<^verbatim>\<open>bbox_from_point\<close> returns, and the call of \<^verbatim>\<open>haversine_distance_m\<close> from the
  center to \<open>(p, q)\<close> returns a distance of at most the radius.
\<close>

definition box_has :: "real \<Rightarrow> real \<Rightarrow> real \<Rightarrow> real \<Rightarrow> real \<Rightarrow> bool" where
  "box_has lat lon radius_m p q =
     (case bbox_from_point lat lon radius_m of Inl e \<Rightarrow> False | Inr b \<Rightarrow> in_bbox b p q)"

definition within_radius :: "real \<Rightarrow> real \<Rightarrow> real \<Rightarrow> real \<Rightarrow> real \<Rightarrow> bool" where
  "within_radius lat lon radius_m p q =
     (case haversine_distance_m lat lon p q of Inl e \<Rightarrow> False | Inr d \<Rightarrow> d \<le> radius_m)"

section \<open>Candidate search\<close>

text \<open>
  One element of the \<^verbatim>\<open>data\<close> list of the catalog's JSON answer. Every field may be
  absent. \<open>raw_coordinates\<close> is \<^verbatim>\<open>img.get("geometry", {}).get("coordinates")\<close>: it is
  \<open>None\<close> when the geometry or its coordinates are missing.
\<close>

record raw_image =
  raw_id :: "string option"
  raw_coordinates :: "real list option"
  raw_is_pano :: "bool option"
  raw_thumb_2048_url :: "string option"

text \<open>One result dictionary of \<^verbatim>\<open>find_nearest_vr_images\<close>.\<close>

record candidate =
  img_id :: string
  img_lat :: real
  img_lon :: real
  distance_m :: real
  viewer_url :: string
  is_pano :: bool
  thumb_2048_url :: "string option"

text \<open>
  The loop over \<^verbatim>\<open>images\<close> (lines 130 to 150). A record without two coordinates is skipped.
  No record is dropped for its distance. \<^verbatim>\<open>img["id"]\<close> raises \<^verbatim>\<open>KeyError\<close> when the id is
  missing; the distance is computed before the id is read.
\<close>

fun collect_results :: "real \<Rightarrow> real \<Rightarrow> raw_image list \<Rightarrow> error + candidate list" where
  "collect_results lat lon [] = Inr []"
| "collect_results lat lon (img # images) =
     (case raw_coordinates img of
        None \<Rightarrow> collect_results lat lon images
      | Some coords \<Rightarrow>
          if coords = [] \<or> length coords < 2 then collect_results lat lon images
          else
            (let i_lon = coords ! 0; i_lat = coords ! 1
             in case haversine_distance_m lat lon i_lat i_lon of
                  Inl e \<Rightarrow> Inl e
                | Inr d \<Rightarrow>
                    (case raw_id img of
                       None \<Rightarrow> Inl KeyError
                     | Some i \<Rightarrow>
                         (case collect_results lat lon images of
                            Inl e \<Rightarrow> Inl e
                          | Inr results \<Rightarrow>
                              Inr (\<lparr> img_id = i,
                                      img_lat = i_lat,
                                      img_lon = i_lon,
                                      distance_m = d,
                                      viewer_url =
                                        ''https://www.mapillary.com/app/?focus=photo&pKey='' @ i,
                                      is_pano = (case raw_is_pano img of
                                                   None \<Rightarrow> False | Some p \<Rightarrow> p),
                                      thumb_2048_url = raw_thumb_2048_url img \<rparr>
                                   # results)))))"

text \<open>The Python slice \<^verbatim>\<open>xs[:n]\<close>; a negative \<open>n\<close> counts from the end.\<close>

definition py_slice_to :: "int \<Rightarrow> 'a list \<Rightarrow> 'a list" where
  "py_slice_to n xs =
     (if 0 \<le> n then take (nat n) xs else take (length xs - nat (- n)) xs)"

text \<open>
  \<^verbatim>\<open>find_nearest_vr_images\<close>. The catalog is the parameter \<open>source\<close>: it takes the bounding
  box of the request and gives the \<^verbatim>\<open>data\<close> list of the answer, or the exception of
  \<^verbatim>\<open>requests.get\<close> or \<^verbatim>\<open>raise_for_status\<close>. \<^verbatim>\<open>list.sort\<close> is stable, as \<open>sort_key\<close> is.
\<close>

definition find_nearest_vr_images ::
  "real \<Rightarrow> real \<Rightarrow> int \<Rightarrow> real \<Rightarrow> (bbox \<Rightarrow> error + raw_image list) \<Rightarrow> error + candidate list"
where
  "find_nearest_vr_images lat lon n radius_m source =
     (case bbox_from_point lat lon radius_m of
        Inl e \<Rightarrow> Inl e
      | Inr box \<Rightarrow>
          (case source box of
             Inl e \<Rightarrow> Inl e
           | Inr images \<Rightarrow>
               if images = [] then Inr []
               else
                 (case collect_results lat lon images of
                    Inl e \<Rightarrow> Inl e
                  | Inr results \<Rightarrow> Inr (py_slice_to n (sort_key distance_m results)))))"

text \<open>A catalog record with all four fields present, for concrete inputs.\<close>

definition record_at :: "string \<Rightarrow> real \<Rightarrow> real \<Rightarrow> raw_image" where
  "record_at i p q =
     \<lparr> raw_id = Some i, raw_coordinates = Some [q, p],
       raw_is_pano = Some True, raw_thumb_2048_url = None \<rparr>"

text \<open>
  Predicates for the claims about the search: the call returns a list in which some
  candidate is farther from the center than the radius; and the ids of the returned
  candidates that share the distance \<open>d\<close>.
\<close>

definition returns_beyond_radius ::
  "real \<Rightarrow> real \<Rightarrow> int \<Rightarrow> real \<Rightarrow> (bbox \<Rightarrow> error + raw_image list) \<Rightarrow> bool" where
  "returns_beyond_radius lat lon n radius_m source =
     (case find_nearest_vr_images lat lon n radius_m source of
        Inl e \<Rightarrow> False
      | Inr res \<Rightarrow> list_ex (\<lambda>c. radius_m < distance_m c) res)"

definition returns_out_of_id_order ::
  "real \<Rightarrow> real \<Rightarrow> int \<Rightarrow> real \<Rightarrow> (bbox \<Rightarrow> error + raw_image list) \<Rightarrow> bool" where
  "returns_out_of_id_order lat lon n radius_m source =
     (case find_nearest_vr_images lat lon n radius_m source of
        Inl e \<Rightarrow> False
      | Inr res \<Rightarrow> \<not> sorted (map (\<lambda>c. (distance_m c, img_id c)) res))"

text \<open>
  A catalog for concrete inputs: it holds a list of records and answers a request with
  those whose two coordinates lie in the requested box, in stored order.
\<close>

definition in_box_record :: "bbox \<Rightarrow> raw_image \<Rightarrow> bool" where
  "in_box_record box r =
     (case raw_coordinates r of
        Some [q, p] \<Rightarrow> in_bbox box p q
      | _ \<Rightarrow> False)"

definition catalog :: "raw_image list \<Rightarrow> bbox \<Rightarrow> error + raw_image list" where
  "catalog stored box = Inr (filter (in_box_record box) stored)"

section \<open>Search with minimum separation\<close>

text \<open>
  The endpoint \<^verbatim>\<open>panos_api\<close> passes its request to \<^verbatim>\<open>core.find_panos_and_views\<close> of the
  package \<^verbatim>\<open>GoogleVR4\<close>, whose source is not part of the files at hand. The search with a
  minimum separation is therefore modelled from the specification (section 4.2); the
  distance and the bounding box are the geo helpers above.
\<close>


text \<open>Modelled from the spec: \<open>ImageCandidate\<close>,
  \<open>{id, location, distanceMeters, isPanorama, previewUrl}\<close>.\<close>

record image_candidate =
  cand_id :: string
  location :: "real \<times> real"
  distanceMeters :: real
  isPanorama :: bool
  previewUrl :: "string option"





text \<open>Modelled from the spec: the edge case \<open>maxResults <= 0\<close> is coerced to 1.\<close>

definition effective_max :: "int \<Rightarrow> nat" where
  "effective_max maxResults = (if maxResults \<le> 0 then 1 else nat maxResults)"

text \<open>Modelled from the spec: step (4) of \<open>search\<close>, missing from the files at hand. The
  candidates are sorted ascending by distance, ties broken by id.\<close>

definition ranked :: "image_candidate list \<Rightarrow> image_candidate list" where
  "ranked cands = sort_key (\<lambda>c. (distanceMeters c, cand_id c)) cands"




section \<open>Perspective views of a panorama\<close>

text \<open>
  An image is the array \<^verbatim>\<open>H x W x C\<close> that \<^verbatim>\<open>cv2.imread\<close> returns: a list of rows, a row a list
  of pixels, a pixel the list of its channel values. Channel values are reals here; the
  rounding to 8 bits is outside this model.
\<close>

type_synonym pixel = "real list"

type_synonym image = "pixel list list"

definition height :: "image \<Rightarrow> nat" where
  "height img = length img"

definition width :: "image \<Rightarrow> nat" where
  "width img = (case img of [] \<Rightarrow> 0 | row # rest \<Rightarrow> length row)"

text \<open>The image has \<open>h\<close> rows of \<open>w\<close> pixels of \<open>c\<close> channels each.\<close>

definition has_shape :: "image \<Rightarrow> nat \<Rightarrow> nat \<Rightarrow> nat \<Rightarrow> bool" where
  "has_shape img h w c \<longleftrightarrow>
     length img = h \<and> list_all (\<lambda>row. length row = w \<and> list_all (\<lambda>p. length p = c) row) img"

text \<open>\<^verbatim>\<open>np.deg2rad\<close>.\<close>

definition deg2rad :: "real \<Rightarrow> real" where
  "deg2rad x = x * pi / 180"

text \<open>\<^verbatim>\<open>np.linspace(a, b, n)\<close> for \<open>n \<ge> 0\<close>: \<open>n\<close> evenly spaced samples from \<open>a\<close> to \<open>b\<close>.\<close>

definition linspace :: "real \<Rightarrow> real \<Rightarrow> nat \<Rightarrow> real list" where
  "linspace a b n =
     (if n = 1 then [a]
      else map (\<lambda>i. a + real i * ((b - a) / real (n - 1))) [0..<n])"

text \<open>
  \<^verbatim>\<open>np.meshgrid(xs, ys)\<close>: entry \<open>(r, c)\<close> of \<^verbatim>\<open>x_grid\<close> is \<open>xs ! c\<close> and that of \<^verbatim>\<open>y_grid\<close> is
  \<open>ys ! r\<close>. The two grids are kept as one grid of pairs.
\<close>

definition meshgrid :: "real list \<Rightarrow> real list \<Rightarrow> (real \<times> real) list list" where
  "meshgrid xs ys = map (\<lambda>y. map (\<lambda>x. (x, y)) xs) ys"

text \<open>
  The ray of one output pixel (lines 203 to 223): the direction \<open>(x_grid, -y_grid, f)\<close> is
  normalised, pitched around the X axis, then yawed around the Y axis. The norm is
  positive whenever \<open>f\<close> is not 0, that is for a positive output width.
\<close>

definition ray :: "real \<Rightarrow> real \<Rightarrow> real \<Rightarrow> real \<times> real \<Rightarrow> real \<times> real \<times> real" where
  "ray yaw pitch f g =
     (let z = f;
          x = fst g;
          y = - snd g;
          norm = sqrt (x * x + y * y + z * z);
          x = x / norm;
          y = y / norm;
          z = z / norm;
          sin_pitch = sin pitch; cos_pitch = cos pitch;
          y_p = y * cos_pitch - z * sin_pitch;
          z_p = y * sin_pitch + z * cos_pitch;
          x_p = x;
          sin_yaw = sin yaw; cos_yaw = cos yaw;
          x_y = x_p * cos_yaw + z_p * sin_yaw;
          y_y = y_p;
          z_y = - x_p * sin_yaw + z_p * cos_yaw
      in (x_y, y_y, z_y))"

text \<open>Lines 226 and 227: \<^verbatim>\<open>lon = np.arctan2(x_y, z_y)\<close>, \<^verbatim>\<open>lat = np.arcsin(y_y)\<close>.\<close>

definition ray_lon :: "real \<Rightarrow> real \<Rightarrow> real \<Rightarrow> real \<times> real \<Rightarrow> real" where
  "ray_lon yaw pitch f g = (case ray yaw pitch f g of (x_y, y_y, z_y) \<Rightarrow> atan2 x_y z_y)"

definition ray_lat :: "real \<Rightarrow> real \<Rightarrow> real \<Rightarrow> real \<times> real \<Rightarrow> real" where
  "ray_lat yaw pitch f g = (case ray yaw pitch f g of (x_y, y_y, z_y) \<Rightarrow> arcsin y_y)"

text \<open>Lines 230 and 231: the source coordinates \<^verbatim>\<open>(x_pano, y_pano)\<close> of one output pixel.\<close>

definition pano_coords :: "nat \<Rightarrow> nat \<Rightarrow> real \<Rightarrow> real \<Rightarrow> real \<Rightarrow> real \<times> real \<Rightarrow> real \<times> real" where
  "pano_coords w_in h_in yaw pitch f g =
     (let lon = ray_lon yaw pitch f g;
          lat = ray_lat yaw pitch f g;
          x_pano = (lon / (2 * pi) + 0.5) * real w_in;
          y_pano = (0.5 - lat / pi) * real h_in
      in (x_pano, y_pano))"

subsection \<open>The library call \<^verbatim>\<open>cv2.remap\<close>\<close>

text \<open>
  \<^verbatim>\<open>cv2.remap\<close> belongs to OpenCV, not to the repository. It is modelled after OpenCV's
  documentation: \<^verbatim>\<open>dst(x, y) = src(map_x(x, y), map_y(x, y))\<close>, the result has the size of the
  maps and the type of the source; with \<^verbatim>\<open>INTER_LINEAR\<close> the value is the bilinear blend of
  the four pixels around the source point; an index outside the source is mapped back by
  \<^verbatim>\<open>borderInterpolate\<close> with the border mode of the call, the same mode for columns and rows.
  \<^verbatim>\<open>BORDER_WRAP\<close> is documented as \<^verbatim>\<open>cdefgh|abcdefgh|abcdefg\<close> (the index modulo the length),
  \<^verbatim>\<open>BORDER_REPLICATE\<close> as \<^verbatim>\<open>aaaaaa|abcdefgh|hhhhhhh\<close> (the index clamped to the range). The
  call is rejected when a map or the source is empty.
\<close>

datatype border_mode = BORDER_REPLICATE | BORDER_WRAP

fun borderInterpolate :: "int \<Rightarrow> int \<Rightarrow> border_mode \<Rightarrow> int" where
  "borderInterpolate p len BORDER_REPLICATE =
     (if p < 0 then 0 else if len \<le> p then len - 1 else p)"
| "borderInterpolate p len BORDER_WRAP = p mod len"

text \<open>The two source columns and the two source rows of a bilinear sample at \<open>(mx, my)\<close>.\<close>

definition tap_cols :: "border_mode \<Rightarrow> nat \<Rightarrow> real \<Rightarrow> int \<times> int" where
  "tap_cols mode w mx =
     (borderInterpolate \<lfloor>mx\<rfloor> (int w) mode, borderInterpolate (\<lfloor>mx\<rfloor> + 1) (int w) mode)"

definition tap_rows :: "border_mode \<Rightarrow> nat \<Rightarrow> real \<Rightarrow> int \<times> int" where
  "tap_rows mode h my =
     (borderInterpolate \<lfloor>my\<rfloor> (int h) mode, borderInterpolate (\<lfloor>my\<rfloor> + 1) (int h) mode)"

definition pixel_at :: "image \<Rightarrow> int \<Rightarrow> int \<Rightarrow> pixel" where
  "pixel_at src r c = src ! nat r ! nat c"

definition blend :: "real \<Rightarrow> pixel \<Rightarrow> real \<Rightarrow> pixel \<Rightarrow> real \<Rightarrow> pixel \<Rightarrow> real \<Rightarrow> pixel \<Rightarrow> pixel" where
  "blend w00 p00 w01 p01 w10 p10 w11 p11 =
     map (\<lambda>k. w00 * p00 ! k + w01 * p01 ! k + w10 * p10 ! k + w11 * p11 ! k)
       [0..<length p00]"

definition remap_pixel :: "image \<Rightarrow> border_mode \<Rightarrow> real \<times> real \<Rightarrow> pixel" where
  "remap_pixel src mode m =
     (let mx = fst m; my = snd m;
          fx = mx - real_of_int \<lfloor>mx\<rfloor>;
          fy = my - real_of_int \<lfloor>my\<rfloor>;
          cs = tap_cols mode (width src) mx;
          rs = tap_rows mode (height src) my
      in blend ((1 - fx) * (1 - fy)) (pixel_at src (fst rs) (fst cs))
               (fx * (1 - fy)) (pixel_at src (fst rs) (snd cs))
               ((1 - fx) * fy) (pixel_at src (snd rs) (fst cs))
               (fx * fy) (pixel_at src (snd rs) (snd cs)))"

definition remap :: "image \<Rightarrow> (real \<times> real) list list \<Rightarrow> border_mode \<Rightarrow> error + image" where
  "remap src maps mode =
     (if maps = [] \<or> hd maps = [] \<or> height src = 0 \<or> width src = 0 then Inl CvError
      else Inr (map (map (remap_pixel src mode)) maps))"

subsection \<open>\<^verbatim>\<open>perspective_from_equirect\<close>\<close>

text \<open>
  The division by \<^verbatim>\<open>math.tan(fov / 2.0)\<close> raises \<^verbatim>\<open>ZeroDivisionError\<close> when the tangent is 0
  (in the reals the tangent of a right angle is undefined; HOL gives it the value 0, so
  that case is an error here too). \<^verbatim>\<open>np.linspace\<close> raises \<^verbatim>\<open>ValueError\<close> for a negative
  number of samples.
\<close>

definition perspective_from_equirect ::
  "image \<Rightarrow> real \<Rightarrow> real \<Rightarrow> real \<Rightarrow> int \<Rightarrow> int \<Rightarrow> error + image" where
  "perspective_from_equirect pano yaw_deg pitch_deg fov_deg out_w out_h =
     (let h_in = height pano; w_in = width pano;
          yaw = deg2rad yaw_deg;
          pitch = deg2rad pitch_deg;
          fov = deg2rad fov_deg
      in if tan (fov / 2) = 0 then Inl ZeroDivisionError
         else
           (let f = 0.5 * real_of_int out_w / tan (fov / 2)
            in if out_w < 0 \<or> out_h < 0 then Inl ValueError
               else
                 (let xs = linspace (- real_of_int out_w / 2) (real_of_int out_w / 2) (nat out_w);
                      ys = linspace (- real_of_int out_h / 2) (real_of_int out_h / 2) (nat out_h);
                      maps = map (map (pano_coords w_in h_in yaw pitch f)) (meshgrid xs ys)
                  in remap pano maps BORDER_WRAP)))"

text \<open>
  For stating claims about single pixels: the grid point, the source coordinates and the
  value of the output pixel in row \<open>i\<close> and column \<open>j\<close>.
\<close>

definition grid_point :: "int \<Rightarrow> int \<Rightarrow> nat \<Rightarrow> nat \<Rightarrow> real \<times> real" where
  "grid_point out_w out_h i j =
     (linspace (- real_of_int out_w / 2) (real_of_int out_w / 2) (nat out_w) ! j,
      linspace (- real_of_int out_h / 2) (real_of_int out_h / 2) (nat out_h) ! i)"

definition source_point ::
  "image \<Rightarrow> real \<Rightarrow> real \<Rightarrow> real \<Rightarrow> int \<Rightarrow> int \<Rightarrow> nat \<Rightarrow> nat \<Rightarrow> real \<times> real" where
  "source_point pano yaw_deg pitch_deg fov_deg out_w out_h i j =
     pano_coords (width pano) (height pano) (deg2rad yaw_deg) (deg2rad pitch_deg)
       (0.5 * real_of_int out_w / tan (deg2rad fov_deg / 2)) (grid_point out_w out_h i j)"

definition output_pixel ::
  "image \<Rightarrow> real \<Rightarrow> real \<Rightarrow> real \<Rightarrow> int \<Rightarrow> int \<Rightarrow> nat \<Rightarrow> nat \<Rightarrow> pixel option" where
  "output_pixel pano yaw_deg pitch_deg fov_deg out_w out_h i j =
     (case perspective_from_equirect pano yaw_deg pitch_deg fov_deg out_w out_h of
        Inl e \<Rightarrow> None
      | Inr view \<Rightarrow> if i < length view \<and> j < length (view ! i) then Some (view ! i ! j) else None)"

text \<open>A panorama of two rows and four columns with one channel, for concrete inputs: the top
  row holds 10, the bottom row 20.\<close>

definition two_row_pano :: image where
  "two_row_pano = [[[10], [10], [10], [10]], [[20], [20], [20], [20]]]"

section \<open>Panorama files and the four views\<close>

text \<open>
  The state that \<^verbatim>\<open>generate_normal_views_for_pano\<close> works on: the files under
  \<^verbatim>\<open>static/panos\<close> (raw bytes), the files under \<^verbatim>\<open>static/views\<close> (the rasters written by
  \<^verbatim>\<open>cv2.imwrite\<close>; the JPEG encoding is not modelled), and the log of the URLs requested
  from the network.
\<close>

type_synonym bytes = "nat list"

record store =
  pano_files :: "string \<rightharpoonup> bytes"
  view_files :: "string \<rightharpoonup> image"
  requests_made :: "string list"

text \<open>
  The answer of the network to \<^verbatim>\<open>requests.get(image_url, stream=True, timeout=15)\<close>:
  either the request fails or \<^verbatim>\<open>raise_for_status\<close> raises (\<open>HttpFailure\<close>, before the file
  is opened), or chunks arrive; the flag says whether the stream completed or broke after
  these chunks, when the file already holds them.
\<close>

datatype http_response = HttpFailure | HttpBody "bytes list" bool

definition pano_path :: "string \<Rightarrow> string" where
  "pano_path image_id = ''panos/'' @ image_id @ ''.jpg''"

definition view_path :: "string \<Rightarrow> string \<Rightarrow> string" where
  "view_path image_id name = ''views/'' @ image_id @ ''_'' @ name @ ''.jpg''"

text \<open>
  Lines 248 to 258 of \<^verbatim>\<open>generate_normal_views_for_pano\<close>: the panorama is downloaded only if
  its file does not exist, then read with \<^verbatim>\<open>cv2.imread\<close>, which gives \<open>None\<close> for bytes that
  are not an image (the parameter \<open>decode\<close>). Empty chunks are not written.
\<close>

definition load_pano ::
  "(string \<Rightarrow> http_response) \<Rightarrow> (bytes \<Rightarrow> image option) \<Rightarrow> string \<Rightarrow> string \<Rightarrow> store
     \<Rightarrow> (error + image option) \<times> store" where
  "load_pano net decode image_id image_url s =
     (case pano_files s (pano_path image_id) of
        Some b \<Rightarrow> (Inr (decode b), s)
      | None \<Rightarrow>
          (let s1 = s\<lparr> requests_made := requests_made s @ [image_url] \<rparr>
           in case net image_url of
                HttpFailure \<Rightarrow> (Inl RequestException, s1)
              | HttpBody chunks completed \<Rightarrow>
                  (let content = concat (filter (\<lambda>chunk. chunk \<noteq> []) chunks);
                       s2 = s1\<lparr> pano_files := (pano_files s1)(pano_path image_id \<mapsto> content) \<rparr>
                   in if completed then (Inr (decode content), s2)
                      else (Inl RequestException, s2))))"

text \<open>\<^verbatim>\<open>str\<close> of an integer, for the default of \<^verbatim>\<open>names.get(yaw, str(yaw))\<close>.\<close>

fun str_nat :: "nat \<Rightarrow> string" where
  "str_nat n =
     (if n < 10 then [char_of (48 + n)]
      else str_nat (n div 10) @ [char_of (48 + n mod 10)])"

definition str_int :: "int \<Rightarrow> string" where
  "str_int i = (if i < 0 then ''-'' @ str_nat (nat (- i)) else str_nat (nat i))"

definition names_get :: "(int \<times> string) list \<Rightarrow> int \<Rightarrow> string" where
  "names_get names yaw = (case map_of names yaw of None \<Rightarrow> str_int yaw | Some name \<Rightarrow> name)"

text \<open>
  The loop over \<^verbatim>\<open>yaw_list\<close> (lines 270 to 285): one view per yaw, written under the name
  of the yaw; \<^verbatim>\<open>results\<close> maps the name to the URL of the file. The URL is built by Flask's
  \<^verbatim>\<open>url_for("static", filename=rel_path)\<close>, which belongs to the web framework and is the
  parameter \<open>url_for\<close>, applied to \<^verbatim>\<open>rel_path\<close>.
\<close>

fun views_loop ::
  "(string \<Rightarrow> string) \<Rightarrow> image \<Rightarrow> string \<Rightarrow> int \<Rightarrow> int \<Rightarrow> real \<Rightarrow> real
     \<Rightarrow> (int \<times> string) list \<Rightarrow> int list
     \<Rightarrow> (string \<rightharpoonup> string) \<Rightarrow> store \<Rightarrow> (error + (string \<rightharpoonup> string)) \<times> store" where
  "views_loop url_for pano image_id out_w out_h fov_deg pitch_deg names [] results s =
     (Inr results, s)"
| "views_loop url_for pano image_id out_w out_h fov_deg pitch_deg names (yaw # yaws) results s =
     (case perspective_from_equirect pano (real_of_int yaw) pitch_deg fov_deg out_w out_h of
        Inl e \<Rightarrow> (Inl e, s)
      | Inr view \<Rightarrow>
          (let name = names_get names yaw;
               s' = s\<lparr> view_files := (view_files s)(view_path image_id name \<mapsto> view) \<rparr>;
               rel_path = view_path image_id name
           in views_loop url_for pano image_id out_w out_h fov_deg pitch_deg names yaws
                (results(name \<mapsto> url_for rel_path)) s'))"

definition generate_normal_views_for_pano ::
  "(string \<Rightarrow> http_response) \<Rightarrow> (bytes \<Rightarrow> image option) \<Rightarrow> (string \<Rightarrow> string)
     \<Rightarrow> string \<Rightarrow> string \<Rightarrow> store
     \<Rightarrow> (error + (string \<rightharpoonup> string)) \<times> store" where
  "generate_normal_views_for_pano net decode url_for image_id image_url s =
     (case load_pano net decode image_id image_url s of
        (Inl e, s1) \<Rightarrow> (Inl e, s1)
      | (Inr None, s1) \<Rightarrow> (Inr Map.empty, s1)
      | (Inr (Some pano), s1) \<Rightarrow>
          (let out_w = 800; out_h = 600;
               fov_deg = 90;
               pitch_deg = 0;
               yaw_list = [0, 90, 180, 270];
               names = [(0, ''front''), (90, ''right''), (180, ''back''), (270, ''left'')]
           in views_loop url_for pano image_id out_w out_h fov_deg pitch_deg names yaw_list
                Map.empty s1))"

text \<open>
  For stating the claim about the fields of the views. The direction \<open>theta\<close> (degrees,
  in \<open>[0, 360)\<close>) lies in the horizontal field of a view with the given yaw and field of
  view when it is in \<open>[yaw - fov/2, yaw + fov/2)\<close> up to a full turn. \<open>view_lon\<close> is the
  longitude (radians) that the code computes for the output pixel in row \<open>i\<close> and column
  \<open>j\<close> of the view with the given yaw, with the settings of the loop; \<open>degrees\<close> converts
  it to degrees.
\<close>

definition degrees :: "real \<Rightarrow> real" where
  "degrees x = x * 180 / pi"

definition in_field :: "real \<Rightarrow> real \<Rightarrow> real \<Rightarrow> bool" where
  "in_field yaw_deg fov_deg theta \<longleftrightarrow>
     (yaw_deg - fov_deg / 2 \<le> theta - 360 \<and> theta - 360 < yaw_deg + fov_deg / 2)
   \<or> (yaw_deg - fov_deg / 2 \<le> theta \<and> theta < yaw_deg + fov_deg / 2)
   \<or> (yaw_deg - fov_deg / 2 \<le> theta + 360 \<and> theta + 360 < yaw_deg + fov_deg / 2)"

definition view_lon :: "real \<Rightarrow> nat \<Rightarrow> nat \<Rightarrow> real" where
  "view_lon yaw_deg i j =
     ray_lon (deg2rad yaw_deg) (deg2rad 0) (0.5 * real_of_int 800 / tan (deg2rad 90 / 2))
       (grid_point 800 600 i j)"

text \<open>A store with one panorama file, for concrete inputs.\<close>

definition store_with :: "string \<Rightarrow> bytes \<Rightarrow> store" where
  "store_with image_id b =
     \<lparr> pano_files = [pano_path image_id \<mapsto> b], view_files = Map.empty, requests_made = [] \<rparr>"

definition offline :: "string \<Rightarrow> http_response" where
  "offline url = HttpFailure"

text \<open>A network that delivers two chunks for every URL, and a URL builder that prefixes
  the path of the static files and quotes nothing, for concrete inputs.\<close>

definition two_chunks :: "string \<Rightarrow> http_response" where
  "two_chunks url = HttpBody [[255], [216]] True"

definition plain_url :: "string \<Rightarrow> string" where
  "plain_url rel_path = ''/static/'' @ rel_path"

definition empty_store :: store where
  "empty_store = \<lparr> pano_files = Map.empty, view_files = Map.empty, requests_made = [] \<rparr>"

definition decode_two_row :: "bytes \<Rightarrow> image option" where
  "decode_two_row b = (if b = [] then None else Some two_row_pano)"

section \<open>Properties of the geo helpers\<close>

lemma haversine_a_sym:
  "haversine_a lat1 lon1 lat2 lon2 = haversine_a lat2 lon2 lat1 lon1"
proof -
  have s: "(sin (- x))\<^sup>2 = (sin x)\<^sup>2" for x :: real
    by simp
  have d1: "radians (lat1 - lat2) / 2 = - (radians (lat2 - lat1) / 2)"
    by (simp add: radians_def field_simps)
  have d2: "radians (lon1 - lon2) / 2 = - (radians (lon2 - lon1) / 2)"
    by (simp add: radians_def field_simps)
  show ?thesis
    unfolding haversine_a_def Let_def d1 d2 s by (simp add: mult.commute)
qed

lemma haversine_a_same: "haversine_a lat lon lat lon = 0"
  by (simp add: haversine_a_def radians_def)

text \<open>
  The variable \<^verbatim>\<open>a\<close> is half of one minus the inner product of two unit vectors, so it
  lies in \<open>[0, 1]\<close> for all arguments: neither \<^verbatim>\<open>math.sqrt\<close> call can raise, and
  \<^verbatim>\<open>haversine_distance_m\<close> always returns.
\<close>

lemma abs_prod_bound: "2 * \<bar>x * y\<bar> \<le> x\<^sup>2 + y\<^sup>2" for x y :: real
  using sum_squares_bound [of "\<bar>x\<bar>" "\<bar>y\<bar>"] by (simp add: abs_mult)

lemma sin_half_squared: "(sin (x / 2))\<^sup>2 = (1 - cos x) / 2" for x :: real
  using cos_double_sin [of "x / 2"] by simp

lemma haversine_a_eq:
  "haversine_a lat1 lon1 lat2 lon2 =
     (1 - (sin (radians lat1) * sin (radians lat2)
           + cos (radians lat1) * cos (radians lat2) * cos (radians (lon2 - lon1)))) / 2"
proof -
  have d: "radians (lat2 - lat1) = radians lat2 - radians lat1"
    by (simp add: radians_def field_simps)
  show ?thesis
    unfolding haversine_a_def Let_def sin_half_squared d cos_diff
    by (simp add: field_simps)
qed

lemma unit_dot_bound:
  fixes t :: real
  assumes "\<bar>t\<bar> \<le> 1"
  shows "\<bar>sin u * sin v + cos u * cos v * t\<bar> \<le> 1"
proof -
  have "\<bar>cos u * cos v * t\<bar> = \<bar>cos u * cos v\<bar> * \<bar>t\<bar>"
    by (simp add: abs_mult)
  also have "\<dots> \<le> \<bar>cos u * cos v\<bar>"
    using assms by (simp add: mult_left_le)
  finally have c: "\<bar>cos u * cos v * t\<bar> \<le> \<bar>cos u * cos v\<bar>" .
  have "2 * \<bar>sin u * sin v\<bar> + 2 * \<bar>cos u * cos v\<bar>
          \<le> ((sin u)\<^sup>2 + (sin v)\<^sup>2) + ((cos u)\<^sup>2 + (cos v)\<^sup>2)"
    using abs_prod_bound [of "sin u" "sin v"] abs_prod_bound [of "cos u" "cos v"] by linarith
  also have "\<dots> = 2"
    using sin_cos_squared_add [of u] sin_cos_squared_add [of v] by linarith
  finally have "\<bar>sin u * sin v\<bar> + \<bar>cos u * cos v\<bar> \<le> 1" by simp
  with c show ?thesis by linarith
qed

lemma haversine_a_range:
  "0 \<le> haversine_a lat1 lon1 lat2 lon2 \<and> haversine_a lat1 lon1 lat2 lon2 \<le> 1"
  using unit_dot_bound [of "cos (radians (lon2 - lon1))" "radians lat1" "radians lat2"]
  unfolding haversine_a_eq by (simp add: abs_le_iff)

lemma haversine_distance_m_returns:
  "haversine_distance_m lat1 lon1 lat2 lon2 =
     Inr (6371000 * (2 * atan2 (sqrt (haversine_a lat1 lon1 lat2 lon2))
                               (sqrt (1 - haversine_a lat1 lon1 lat2 lon2))))"
  using haversine_a_range [of lat1 lon1 lat2 lon2]
  by (simp add: haversine_distance_m_def py_sqrt_def Let_def)

lemma pi_ge_3: "3 \<le> pi"
  using sin_x_le_x [of "pi / 6"] by (simp add: sin_30)

lemma arctan_le_self: "0 \<le> x \<Longrightarrow> arctan x \<le> x"
proof -
  assume x: "0 \<le> x"
  let ?f = "\<lambda>x. x - arctan x"
  have "\<And>u. \<lbrakk>0 \<le> u; u \<le> x\<rbrakk> \<Longrightarrow> \<exists>y. (?f has_real_derivative y) (at u) \<and> 0 \<le> y"
  proof -
    fix u :: real
    have "(?f has_real_derivative (1 - inverse (1 + u\<^sup>2))) (at u)"
      by (auto intro!: derivative_eq_intros)
    moreover have "0 \<le> 1 - inverse (1 + u\<^sup>2)"
      by (simp add: inverse_le_1_iff)
    ultimately show "\<exists>y. (?f has_real_derivative y) (at u) \<and> 0 \<le> y" by blast
  qed
  then have "?f 0 \<le> ?f x"
    by (rule DERIV_nonneg_imp_nondecreasing [OF x])
  then show ?thesis by simp
qed

text \<open>Bounds from the Taylor expansions, for the concrete distances below.\<close>

lemma sin_lower: "x - \<bar>x\<bar> ^ 3 / 6 \<le> sin x" for x :: real
proof -
  have "(\<Sum>m<3. sin_coeff m * x ^ m) = x"
    by (simp add: sin_coeff_def numeral_3_eq_3)
  with Maclaurin_sin_bound [of x 3] have "\<bar>sin x - x\<bar> \<le> inverse (fact 3) * \<bar>x\<bar> ^ 3"
    by simp
  moreover have "inverse (fact 3 :: real) = 1 / 6"
    by (simp add: fact_numeral inverse_eq_divide)
  ultimately have "\<bar>sin x - x\<bar> \<le> \<bar>x\<bar> ^ 3 / 6" by simp
  then show ?thesis by linarith
qed

lemma cos_lower: "1 - x\<^sup>2 / 2 \<le> cos x" for x :: real
proof -
  have "\<bar>sin (x / 2)\<bar> \<le> \<bar>x / 2\<bar>" by (rule abs_sin_x_le_abs_x)
  then have "(sin (x / 2))\<^sup>2 \<le> (x / 2)\<^sup>2" by (simp only: abs_le_square_iff)
  moreover have "cos x = 1 - 2 * (sin (x / 2))\<^sup>2"
    using cos_double_sin [of "x / 2"] by simp
  ultimately show ?thesis by (simp add: power2_eq_square)
qed

lemma haversine_distance_m_sym:
  "haversine_distance_m lat1 lon1 lat2 lon2 = haversine_distance_m lat2 lon2 lat1 lon1"
  unfolding haversine_distance_m_def haversine_a_sym [of lat1 lon1 lat2 lon2] ..

lemma haversine_distance_m_same: "haversine_distance_m lat lon lat lon = Inr 0"
  by (simp add: haversine_distance_m_def haversine_a_same py_sqrt_def atan2_def)

text \<open>
  Claim C6. The haversine distance is symmetric in its two points, and the distance from
  a point to itself is 0 (the call returns, and returns 0).
\<close>

theorem haversine_symmetric_and_zero:
  "haversine_distance_m lat1 lon1 lat2 lon2 = haversine_distance_m lat2 lon2 lat1 lon1
   \<and> haversine_distance_m lat lon lat lon = Inr 0"
  using haversine_distance_m_sym [of lat1 lon1 lat2 lon2] haversine_distance_m_same [of lat lon]
  by (rule conjI)

section \<open>Properties of the bounding box\<close>

lemma radians_60: "radians 60 = pi / 3"
  by (simp add: radians_def)

lemma meters_per_deg_lon_pos: "0 < 111320 * max (cos x) (1 / 1000000 :: real)"
  by (simp add: max_def)

text \<open>
  Claim C5, as amended. \<^verbatim>\<open>bbox_from_point\<close> has no argument check and raises nothing: for a
  radius that is zero or negative it still returns a box, whose upper bounds are then at most
  its lower bounds (the box is the center point for radius 0 and is inverted for a negative
  radius).
\<close>

theorem bbox_not_fail_nonpositive:
  "radius_m \<le> 0 \<Longrightarrow>
     (\<exists>b. bbox_from_point lat lon radius_m = Inr b
          \<and> max_lat b \<le> min_lat b \<and> max_lon b \<le> min_lon b)"
proof -
  assume r: "radius_m \<le> 0"
  have "radius_m / (111320 * max (cos (radians lat)) (1 / 1000000)) \<le> 0"
    using r meters_per_deg_lon_pos [of "radians lat"] by (simp add: divide_le_0_iff)
  moreover have "radius_m / 111320 \<le> 0" using r by simp
  ultimately show ?thesis
    by (simp add: bbox_from_point_def Let_def)
qed

theorem bbox_not_fail_nonpositive_witness:
  "(- 100 :: real) \<le> 0 \<and>
     (\<exists>b. bbox_from_point 0 0 (- 100) = Inr b
          \<and> max_lat b \<le> min_lat b \<and> max_lon b \<le> min_lon b)"
  using bbox_not_fail_nonpositive [of "- 100" 0 0] by simp

text \<open>
  Claim C5 as stated fails: for the radius \<open>-100\<close> at the center \<open>(0, 0)\<close> the call returns
  a box (an inverted one) and no error.
\<close>

theorem bbox_nonpositive_counterexample:
  "bbox_from_point 0 0 (- 100) =
     Inr \<lparr> min_lat = 100 / 111320, max_lat = - (100 / 111320),
           min_lon = 100 / 111320, max_lon = - (100 / 111320) \<rparr>"
  by (simp add: bbox_from_point_def radians_def Let_def)

lemma clamp_cos_range:
  "1 / 1000000 \<le> max (cos x) (1 / 1000000 :: real) \<and> max (cos x) (1 / 1000000 :: real) \<le> 1"
  by (simp add: max_def)

text \<open>
  Claim C4, as amended. For every center and every positive radius the box returned by
  \<^verbatim>\<open>bbox_from_point\<close> contains the center point, and it is exactly the set of the points
  whose latitude differs from that of the center by at most \<open>radius_m / 111320\<close> degrees and
  whose longitude differs by at most \<open>radius_m / (111320 * max (cos lat) 1e-6)\<close> degrees. The
  half-extent in latitude is positive; the half-extent in longitude is at least that in
  latitude and, by the clamp of the cosine, at most \<open>10^6\<close> times that. (The box is an
  approximation of the radius disc, and not a superset of it.)
\<close>

theorem bbox_contains_center:
  assumes "0 < radius_m"
  shows "box_has lat lon radius_m lat lon
    \<and> (\<forall>p q. box_has lat lon radius_m p q \<longleftrightarrow>
          \<bar>p - lat\<bar> \<le> radius_m / 111320
          \<and> \<bar>q - lon\<bar> \<le> radius_m / (111320 * max (cos (radians lat)) (1 / 1000000)))
    \<and> 0 < radius_m / 111320
    \<and> radius_m / 111320 \<le> radius_m / (111320 * max (cos (radians lat)) (1 / 1000000))
    \<and> radius_m / (111320 * max (cos (radians lat)) (1 / 1000000))
          \<le> 1000000 * (radius_m / 111320)"
proof -
  let ?m = "max (cos (radians lat)) (1 / 1000000)"
  have m: "1 / 1000000 \<le> ?m" "?m \<le> 1"
    using clamp_cos_range [of "radians lat"] by simp_all
  then have mp: "0 < ?m" by linarith
  have lo: "radius_m / 111320 \<le> radius_m / (111320 * ?m)"
    using assms m mp by (simp add: field_simps)
  have hi: "radius_m / (111320 * ?m) \<le> 1000000 * (radius_m / 111320)"
  proof -
    have "radius_m \<le> radius_m * (1000000 * ?m)"
      using assms m(1) by (simp add: mult_le_cancel_left1)
    then show ?thesis using mp by (simp add: field_simps)
  qed
  have d: "0 < radius_m / 111320" using assms by simp
  have c: "box_has lat lon radius_m p q \<longleftrightarrow>
          \<bar>p - lat\<bar> \<le> radius_m / 111320 \<and> \<bar>q - lon\<bar> \<le> radius_m / (111320 * ?m)" for p q
  proof -
    have k: "(a - d \<le> p \<and> p \<le> a + d \<and> b - e \<le> q \<and> q \<le> b + e) \<longleftrightarrow>
             (\<bar>p - a\<bar> \<le> d \<and> \<bar>q - b\<bar> \<le> e)" for a d b e :: real
      by (auto simp: abs_le_iff)
    have "box_has lat lon radius_m p q \<longleftrightarrow>
            lat - radius_m / 111320 \<le> p \<and> p \<le> lat + radius_m / 111320
            \<and> lon - radius_m / (111320 * ?m) \<le> q \<and> q \<le> lon + radius_m / (111320 * ?m)"
      by (simp add: box_has_def bbox_from_point_def Let_def in_bbox_def)
    then show ?thesis unfolding k .
  qed
  have "box_has lat lon radius_m lat lon"
    unfolding c using d lo by simp
  with c d lo hi show ?thesis by blast
qed

theorem bbox_contains_center_witness:
  "(0 :: real) < 100 \<and> box_has 12 80 100 12 80
     \<and> box_has 12 80 100 (12 + 100 / 111320) 80
     \<and> \<not> box_has 12 80 100 (12 + 101 / 111320) 80"
proof -
  have r: "(0 :: real) < 100" by simp
  note t = bbox_contains_center [OF r, of 12 80]
  let ?e = "100 / (111320 * max (cos (radians 12)) (1 / 1000000))"
  from t have c: "box_has 12 80 100 12 80" by (elim conjE)
  from t have i: "box_has 12 80 100 p q \<longleftrightarrow> \<bar>p - 12\<bar> \<le> 100 / 111320 \<and> \<bar>q - 80\<bar> \<le> ?e"
    for p q by (elim conjE) blast
  from t have e: "100 / 111320 \<le> ?e" by (elim conjE)
  have "(0 :: real) \<le> 100 / 111320" by simp
  then have "0 \<le> ?e" using e by (rule order_trans)
  then have "box_has 12 80 100 (12 + 100 / 111320) 80"
    "\<not> box_has 12 80 100 (12 + 101 / 111320) 80"
    unfolding i by simp_all
  with r c show ?thesis by blast
qed

lemma haversine_a_60_90: "haversine_a 60 0 60 90 = 1 / 8"
proof -
  have s: "(sin (pi / 4))\<^sup>2 = (1 / 2 :: real)"
    by (simp add: sin_45 power2_eq_square)
  have r: "radians (90 - 0) / 2 = pi / 4" "radians (60 - 60) / 2 = 0"
    by (simp_all add: radians_def)
  show ?thesis
    unfolding haversine_a_def Let_def r radians_60 cos_60 s by simp
qed

lemma pi_upper: "pi < 3144 / 1000"
proof (rule ccontr)
  assume "\<not> pi < 3144 / 1000"
  then have p: "524 / 1000 \<le> pi / 6" by simp
  have "sin (524 / 1000) \<le> sin (pi / 6)"
    by (rule sin_monotone_2pi_le) (use p pi_ge_two in simp_all)
  moreover have "(1 / 2 :: real) < 524 / 1000 - \<bar>524 / 1000\<bar> ^ 3 / 6"
    by (simp add: power3_eq_cube)
  ultimately show False
    using sin_lower [of "524 / 1000"] by (simp add: sin_30)
qed

lemma haversine_on_meridian:
  assumes "0 \<le> lat2 - lat1" "lat2 - lat1 < 180"
  shows "haversine_distance_m lat1 lon lat2 lon = Inr (6371000 * radians (lat2 - lat1))"
proof -
  let ?h = "radians (lat2 - lat1) / 2"
  have h: "0 \<le> ?h" "?h < pi / 2"
    using assms by (simp_all add: radians_def)
  have c: "0 < cos ?h"
    by (rule cos_gt_zero_pi) (use h in simp_all)
  have s: "0 \<le> sin ?h"
    by (rule sin_ge_zero) (use h in simp_all)
  have a: "haversine_a lat1 lon lat2 lon = (sin ?h)\<^sup>2"
    by (simp add: haversine_a_def Let_def radians_def)
  have "1 - (sin ?h)\<^sup>2 = (cos ?h)\<^sup>2"
    by (simp add: cos_squared_eq)
  then have b: "sqrt (1 - (sin ?h)\<^sup>2) = cos ?h"
    using c by simp
  have "atan2 (sin ?h) (cos ?h) = arctan (tan ?h)"
    using c by (simp add: atan2_def tan_def)
  also have "\<dots> = ?h"
    by (rule arctan_tan) (use h in simp_all)
  finally show ?thesis
    unfolding haversine_distance_m_returns a b using s by simp
qed

text \<open>
  Claim C4 as stated fails. Center \<open>(0, 0)\<close>, radius 100 m: the point at latitude
  \<open>0.0008985\<close> degrees on the meridian of the center is at haversine distance
  \<open>6371000 * 0.0008985 * pi / 180\<close>, about 99.91 m, so within the radius, but the box reaches
  only to latitude \<open>100 / 111320\<close>, about \<open>0.0008983\<close> degrees: one degree of latitude is
  taken as 111320 m by the box and is about 111195 m on the sphere of the distance.
\<close>

theorem bbox_superset_counterexample:
  "within_radius 0 0 100 (8985 / 10000000) 0 \<and> \<not> box_has 0 0 100 (8985 / 10000000) 0"
proof
  have "haversine_distance_m 0 0 (8985 / 10000000) 0 =
          Inr (6371000 * radians (8985 / 10000000 - 0))"
    by (rule haversine_on_meridian) simp_all
  moreover have "6371000 * radians (8985 / 10000000 - 0) \<le> 100"
    using pi_upper by (simp add: radians_def)
  ultimately show "within_radius 0 0 100 (8985 / 10000000) 0"
    by (simp add: within_radius_def)
  show "\<not> box_has 0 0 100 (8985 / 10000000) 0"
    by (simp add: box_has_def bbox_from_point_def radians_def in_bbox_def Let_def)
qed

text \<open>
  The box also misses points to the east and west at higher latitudes, by far more.
  Center \<open>(60, 0)\<close>, radius 5000000 m: the point \<open>(60, 90)\<close> is at
  haversine distance \<open>2 * 6371000 * arctan (sqrt (1/7))\<close>, about 4604 km, so within the radius,
  but the box reaches only to longitude \<open>5000000 / (111320 * cos 60\<degree>)\<close>, about 89.83 degrees.
\<close>

lemma bbox_misses_point_east:
  "within_radius 60 0 5000000 60 90 \<and> \<not> box_has 60 0 5000000 60 90"
proof
  have q: "sqrt (1 / 8) / sqrt (7 / 8) = sqrt (1 / 7 :: real)"
    by (simp add: real_sqrt_divide [symmetric])
  have "sqrt (1 / 7 :: real) \<le> 38 / 100"
    by (rule real_le_lsqrt) (simp_all add: power2_eq_square)
  moreover have "arctan (sqrt (1 / 7)) \<le> sqrt (1 / 7)"
    by (rule arctan_le_self) simp
  ultimately have "arctan (sqrt (1 / 7)) \<le> 38 / 100" by linarith
  then show "within_radius 60 0 5000000 60 90"
    unfolding within_radius_def haversine_distance_m_returns haversine_a_60_90
    by (simp add: atan2_def q)
  show "\<not> box_has 60 0 5000000 60 90"
    by (simp add: box_has_def bbox_from_point_def radians_60 cos_60 in_bbox_def Let_def)
qed

section \<open>Properties of the candidate search\<close>

text \<open>
  The corner of the box for the center \<open>(0, 0)\<close> and the radius 100 m is at latitude and
  longitude \<open>100 / 111320\<close> degrees, that is \<open>pi / 200376\<close> radians. Its distance from the
  center is more than 100 m (about 141 m): \<open>100 / (2 * 6371000) = 1 / 127420\<close> is the angle
  whose tangent the argument of \<open>arctan\<close> has to exceed.
\<close>

lemma tan_s_upper: "tan (1 / 127420 :: real) \<le> 9 / 1000000"
proof -
  let ?s = "1 / 127420 :: real"
  have c: "99 / 100 \<le> cos ?s"
    using cos_lower [of ?s] by (simp add: power2_eq_square)
  have s: "sin ?s \<le> ?s"
    by (rule sin_x_le_x) simp
  have s0: "0 \<le> sin ?s"
    by (rule sin_ge_zero) (use pi_ge_two in simp_all)
  have "tan ?s = sin ?s / cos ?s" by (simp add: tan_def)
  also have "\<dots> \<le> sin ?s / (99 / 100)"
    using c s0 by (intro divide_left_mono) simp_all
  also have "\<dots> \<le> ?s / (99 / 100)"
    using s by (simp add: divide_right_mono)
  also have "\<dots> \<le> 9 / 1000000" by simp
  finally show ?thesis .
qed

lemma sin_t_lower: "14 / 1000000 \<le> sin (pi / 200376)"
proof -
  let ?t = "pi / 200376"
  have t0: "0 \<le> ?t" by simp
  have tl: "3 / 200376 \<le> ?t" using pi_ge_3 by simp
  have tu: "?t \<le> 1 / 1000" using pi_less_4 by simp
  have "\<bar>?t\<bar> ^ 3 = ?t * (?t * ?t)" using t0 by (simp add: power3_eq_cube)
  also have "\<dots> \<le> ?t * (1 / 1000 * (1 / 1000))"
    using t0 tu by (intro mult_left_mono mult_mono) simp_all
  also have "\<dots> = ?t / 1000000" by simp
  finally have "\<bar>?t\<bar> ^ 3 \<le> ?t / 1000000" .
  with t0 have "\<bar>?t\<bar> ^ 3 / 6 \<le> ?t / 1000000" by linarith
  with sin_lower [of ?t] have "?t - ?t / 1000000 \<le> sin ?t" by linarith
  with tl show ?thesis by simp
qed

lemma haversine_a_corner:
  "haversine_a 0 0 (100 / 111320) (100 / 111320) = (sin (pi / 200376))\<^sup>2 / 2"
proof -
  have r: "radians (100 / 111320 - 0) = pi / 200376" "radians (100 / 111320) = pi / 200376"
    "radians 0 = 0"
    by (simp_all add: radians_def)
  have "haversine_a 0 0 (100 / 111320) (100 / 111320) = (1 - (cos (pi / 200376))\<^sup>2) / 2"
    unfolding haversine_a_def Let_def r sin_half_squared
    by (simp add: field_simps power2_eq_square)
  then show ?thesis
    by (simp add: sin_squared_eq)
qed

lemma corner_distance:
  "haversine_distance_m 0 0 (100 / 111320) (100 / 111320) = Inr d \<Longrightarrow> 100 < d"
proof -
  assume h: "haversine_distance_m 0 0 (100 / 111320) (100 / 111320) = Inr d"
  let ?a = "(sin (pi / 200376))\<^sup>2 / 2"
  have st: "14 / 1000000 \<le> sin (pi / 200376)" by (rule sin_t_lower)
  have a1: "?a \<le> 1 / 2"
    using abs_sin_le_one [of "pi / 200376"] by (simp add: abs_square_le_1)
  have a0: "0 < ?a" using st by simp
  have sb0: "0 < sqrt (1 - ?a)" using a1 by simp
  have sb1: "sqrt (1 - ?a) \<le> 1" using a0 by simp
  have q2: "sqrt 2 \<le> (3 / 2 :: real)"
    by (rule real_le_lsqrt) (simp_all add: power2_eq_square)
  have "sin (pi / 200376) / (3 / 2) \<le> sin (pi / 200376) / sqrt 2"
    using st q2 by (intro divide_left_mono) simp_all
  moreover have "sqrt ?a = sin (pi / 200376) / sqrt 2"
    using st by (simp add: real_sqrt_divide)
  ultimately have "sin (pi / 200376) / (3 / 2) \<le> sqrt ?a" by simp
  with st have sa: "9 / 1000000 < sqrt ?a" by simp
  have "sqrt ?a \<le> sqrt ?a / sqrt (1 - ?a)"
    using sb0 sb1 a0 by (simp add: field_simps)
  with sa tan_s_upper have "tan (1 / 127420) < sqrt ?a / sqrt (1 - ?a)" by linarith
  then have "arctan (tan (1 / 127420)) < arctan (sqrt ?a / sqrt (1 - ?a))"
    by (rule arctan_monotone)
  moreover have "arctan (tan (1 / 127420)) = 1 / 127420"
    by (rule arctan_tan) (use pi_ge_two in simp_all)
  ultimately have "1 / 127420 < arctan (sqrt ?a / sqrt (1 - ?a))" by simp
  moreover have "d = 6371000 * (2 * arctan (sqrt ?a / sqrt (1 - ?a)))"
    using h sb0 unfolding haversine_distance_m_returns haversine_a_corner
    by (simp add: atan2_def)
  ultimately show ?thesis by simp
qed

lemma bbox_0_0_100:
  "bbox_from_point 0 0 100 =
     Inr \<lparr> min_lat = - (100 / 111320), max_lat = 100 / 111320,
           min_lon = - (100 / 111320), max_lon = 100 / 111320 \<rparr>"
  by (simp add: bbox_from_point_def radians_def Let_def)

text \<open>
  Claim C1, at a failing input. Center \<open>(0, 0)\<close>, radius 100 m, five results asked for; the
  catalog holds one record, at the corner \<open>(100 / 111320, 100 / 111320)\<close> of the bounding
  box. \<^verbatim>\<open>find_nearest_vr_images\<close> returns it, although its haversine distance from the center
  (about 141 m) is more than the radius: the loop has no distance filter.
\<close>

theorem find_nearest_returns_beyond_radius:
  "returns_beyond_radius 0 0 5 100 (catalog [record_at ''corner'' (100 / 111320) (100 / 111320)])"
proof -
  obtain d where d: "haversine_distance_m 0 0 (100 / 111320) (100 / 111320) = Inr d"
    using haversine_distance_m_returns by blast
  then have "100 < d" by (rule corner_distance)
  moreover have "haversine_distance_m 0 0 (5 / 5566) (5 / 5566) = Inr d"
    using d by simp
  ultimately show ?thesis
    by (simp add: returns_beyond_radius_def find_nearest_vr_images_def bbox_0_0_100 catalog_def
        in_box_record_def record_at_def in_bbox_def py_slice_to_def Let_def)
qed

text \<open>
  Claim C2, as amended. For a non-negative \<open>n\<close>, a call of \<^verbatim>\<open>find_nearest_vr_images\<close> that
  returns gives at most \<open>n\<close> candidates, sorted by non-decreasing distance; the candidates
  of one distance appear in the order in which the catalog listed them (the sort is stable
  and its key is the distance alone): for every distance \<open>d\<close>, the returned candidates at
  distance \<open>d\<close> are an initial segment of the collected candidates at distance \<open>d\<close>.
\<close>

theorem find_nearest_sorted_stable:
  assumes "find_nearest_vr_images lat lon n radius_m source = Inr res" and "0 \<le> n"
  shows "length res \<le> nat n \<and> sorted (map distance_m res) \<and>
    (\<exists>box images results.
       bbox_from_point lat lon radius_m = Inr box \<and> source box = Inr images \<and>
       collect_results lat lon images = Inr results \<and>
       (\<forall>d. prefix (filter (\<lambda>c. distance_m c = d) res)
                    (filter (\<lambda>c. distance_m c = d) results)))"
proof -
  from assms(1) obtain box images results where
    b: "bbox_from_point lat lon radius_m = Inr box" and
    s: "source box = Inr images" and
    c: "collect_results lat lon images = Inr results" and
    r: "res = take (nat n) (sort_key distance_m results)"
    using assms(2)
    by (auto simp: find_nearest_vr_images_def py_slice_to_def
             split: sum.splits if_splits)
  have "length res \<le> nat n" using r by simp
  moreover have "sorted (map distance_m res)"
    unfolding r by (simp add: take_map [symmetric])
  moreover have "prefix (filter (\<lambda>c. distance_m c = d) res)
                    (filter (\<lambda>c. distance_m c = d) results)" for d
  proof -
    have "prefix res (sort_key distance_m results)"
      unfolding r by (rule take_is_prefix)
    then have "prefix (filter (\<lambda>c. distance_m c = d) res)
                      (filter (\<lambda>c. distance_m c = d) (sort_key distance_m results))"
      by (rule filter_mono_prefix)
    then show ?thesis by (simp only: sort_key_stable)
  qed
  ultimately show ?thesis using b s c by blast
qed

theorem find_nearest_sorted_stable_witness:
  "\<exists>res. find_nearest_vr_images 0 0 5 100
                (catalog [record_at ''b'' 0 0, record_at ''a'' 0 0]) = Inr res
     \<and> (0 :: int) \<le> 5
     \<and> length res \<le> nat 5 \<and> sorted (map distance_m res)
     \<and> map img_id res = [''b'', ''a'']"
proof -
  have z: "haversine_distance_m 0 0 0 0 = Inr 0"
    by (rule haversine_distance_m_same)
  obtain res where
    h: "find_nearest_vr_images 0 0 5 100
          (catalog [record_at ''b'' 0 0, record_at ''a'' 0 0]) = Inr res"
    and i: "map img_id res = [''b'', ''a'']"
    using z
    by (simp add: find_nearest_vr_images_def bbox_0_0_100 catalog_def
        in_box_record_def record_at_def in_bbox_def py_slice_to_def Let_def)
  have five: "(0 :: int) \<le> 5" by simp
  have "length res \<le> nat 5 \<and> sorted (map distance_m res)"
    using find_nearest_sorted_stable [OF h five] by (elim conjE) (rule conjI)
  with h i five show ?thesis
    by (intro exI [of _ res]) (elim conjE, intro conjI)
qed

text \<open>
  Claim C2 as stated fails in its tie-break. Two records at the center, listed with the ids
  \<open>b\<close> then \<open>a\<close>: both are at distance 0 and are returned in the listed order, which is not
  ascending in the id.
\<close>

theorem find_nearest_tie_counterexample:
  "returns_out_of_id_order 0 0 5 100 (catalog [record_at ''b'' 0 0, record_at ''a'' 0 0])"
proof -
  have "haversine_distance_m 0 0 0 0 = Inr 0"
    by (rule haversine_distance_m_same)
  then show ?thesis
    by (simp add: returns_out_of_id_order_def find_nearest_vr_images_def bbox_0_0_100 catalog_def
        in_box_record_def record_at_def in_bbox_def py_slice_to_def)
qed

section \<open>Properties of the search with minimum separation\<close>





lemma effective_max_eq: "effective_max k = nat (max 1 k)"
  by (simp add: effective_max_def max_def)




lemma ranked_set: "set (ranked xs) = set xs \<and> length (ranked xs) = length xs"
  by (simp add: ranked_def)












section \<open>Properties of the perspective projection\<close>

lemma length_linspace: "length (linspace a b n) = n"
  by (simp add: linspace_def)

lemma has_shape_height: "has_shape img h w c \<Longrightarrow> height img = h"
  by (simp add: has_shape_def height_def)

lemma has_shape_width: "has_shape img h w c \<Longrightarrow> 0 < h \<Longrightarrow> width img = w"
  by (cases img) (simp_all add: has_shape_def width_def)

lemma has_shape_pixel:
  "has_shape img h w c \<Longrightarrow> r < h \<Longrightarrow> k < w \<Longrightarrow> length (img ! r ! k) = c"
  by (simp add: has_shape_def list_all_length)

lemma tan_half_fov_pos:
  assumes "0 < fov_deg" "fov_deg < 180"
  shows "0 < tan (deg2rad fov_deg / 2)"
proof -
  have "0 < deg2rad fov_deg / 2" using assms by (simp add: deg2rad_def)
  moreover have "deg2rad fov_deg / 2 < pi / 2" using assms by (simp add: deg2rad_def)
  ultimately show ?thesis by (rule tan_gt_zero)
qed

lemma wrap_in_range: "0 < n \<Longrightarrow> nat (p mod int n) < n"
  by (simp add: nat_less_iff)

lemma remap_pixel_channels:
  assumes "has_shape src h w c" "0 < h" "0 < w"
  shows "length (remap_pixel src BORDER_WRAP m) = c"
proof -
  have "length (src ! nat (\<lfloor>snd m\<rfloor> mod int h) ! nat (\<lfloor>fst m\<rfloor> mod int w)) = c"
    using assms by (intro has_shape_pixel [OF assms(1)] wrap_in_range)
  then show ?thesis
    using assms
    by (simp add: remap_pixel_def blend_def pixel_at_def tap_cols_def tap_rows_def Let_def
        has_shape_height has_shape_width [OF assms(1,2)])
qed

lemma perspective_returns:
  assumes "has_shape pano h w c" "0 < h" "0 < w"
    and "tan (deg2rad fov_deg / 2) \<noteq> 0" "0 < out_w" "0 < out_h"
  shows "perspective_from_equirect pano yaw_deg pitch_deg fov_deg out_w out_h =
     Inr (map (map (remap_pixel pano BORDER_WRAP))
            (map (map (pano_coords w h (deg2rad yaw_deg) (deg2rad pitch_deg)
                         (0.5 * real_of_int out_w / tan (deg2rad fov_deg / 2))))
               (meshgrid (linspace (- real_of_int out_w / 2) (real_of_int out_w / 2) (nat out_w))
                         (linspace (- real_of_int out_h / 2) (real_of_int out_h / 2) (nat out_h)))))"
proof -
  let ?xs = "linspace (- real_of_int out_w / 2) (real_of_int out_w / 2) (nat out_w)"
  let ?ys = "linspace (- real_of_int out_h / 2) (real_of_int out_h / 2) (nat out_h)"
  have x: "?xs \<noteq> []" using assms(5) length_linspace [of _ _ "nat out_w"]
    by (metis length_0_conv nat_0_iff not_less)
  have y: "?ys \<noteq> []" using assms(6) length_linspace [of _ _ "nat out_h"]
    by (metis length_0_conv nat_0_iff not_less)
  have m: "meshgrid ?xs ?ys \<noteq> []" "hd (meshgrid ?xs ?ys) \<noteq> []"
    using x y by (simp_all add: meshgrid_def hd_map)
  then have "map (map f) (meshgrid ?xs ?ys) \<noteq> [] \<and> hd (map (map f) (meshgrid ?xs ?ys)) \<noteq> []" 
      for f :: "real \<times> real \<Rightarrow> real \<times> real"
    by (simp add: hd_map)
  then show ?thesis
    using assms
    by (simp add: perspective_from_equirect_def Let_def remap_def
        has_shape_height [OF assms(1)] has_shape_width [OF assms(1,2)])
qed

text \<open>
  Claim C10. For a panorama of positive height and width with \<open>c\<close> channels, a field of view
  strictly between 0 and 180 degrees and a positive output resolution,
  \<^verbatim>\<open>perspective_from_equirect\<close> returns, and the raster it returns has \<open>out_h\<close> rows of
  \<open>out_w\<close> pixels of \<open>c\<close> channels, whatever the size of the panorama, the yaw and the pitch.
\<close>

theorem perspective_shape:
  assumes "has_shape pano h w c" "0 < h" "0 < w"
    and "0 < fov_deg" "fov_deg < 180" "0 < out_w" "0 < out_h"
  shows "\<exists>view. perspective_from_equirect pano yaw_deg pitch_deg fov_deg out_w out_h = Inr view
            \<and> has_shape view (nat out_h) (nat out_w) c"
proof -
  have t: "tan (deg2rad fov_deg / 2) \<noteq> 0"
    using tan_half_fov_pos [OF assms(4,5)] by simp
  have "has_shape (map (map (remap_pixel pano BORDER_WRAP)) (map (map f) (meshgrid xs ys)))
          (length ys) (length xs) c" for f :: "real \<times> real \<Rightarrow> real \<times> real" and xs ys
    using remap_pixel_channels [OF assms(1,2,3)]
    by (simp add: has_shape_def meshgrid_def list_all_iff)
  then show ?thesis
    unfolding perspective_returns [OF assms(1,2,3) t assms(6,7)]
    using length_linspace by metis
qed

theorem perspective_shape_witness:
  "has_shape two_row_pano 2 4 1 \<and> (0 :: nat) < 2 \<and> (0 :: nat) < 4
     \<and> (0 :: real) < 90 \<and> (90 :: real) < 180 \<and> (0 :: int) < 3
     \<and> (\<exists>view. perspective_from_equirect two_row_pano 45 10 90 3 3 = Inr view
            \<and> has_shape view (nat 3) (nat 3) 1)"
proof -
  have s: "has_shape two_row_pano 2 4 1"
    by (simp add: has_shape_def two_row_pano_def)
  show ?thesis
    using s perspective_shape [OF s, of 90 3 3 45 10] by simp
qed

lemma floor_add_nat: "\<lfloor>x + real n\<rfloor> = \<lfloor>x\<rfloor> + int n"
  by (metis floor_add_int of_int_of_nat_eq)

lemma wrap_period: "borderInterpolate (p + int n) (int n) BORDER_WRAP =
    borderInterpolate p (int n) BORDER_WRAP"
  by simp

lemma tap_cols_period: "tap_cols BORDER_WRAP w (mx + real w) = tap_cols BORDER_WRAP w mx"
proof -
  have "\<lfloor>mx\<rfloor> + int w + 1 = \<lfloor>mx\<rfloor> + 1 + int w" by simp
  then show ?thesis
    unfolding tap_cols_def floor_add_nat by (simp only: wrap_period)
qed

lemma tap_rows_period: "tap_rows BORDER_WRAP h (my + real h) = tap_rows BORDER_WRAP h my"
proof -
  have "\<lfloor>my\<rfloor> + int h + 1 = \<lfloor>my\<rfloor> + 1 + int h" by simp
  then show ?thesis
    unfolding tap_rows_def floor_add_nat by (simp only: wrap_period)
qed

lemma remap_pixel_period_x:
  "remap_pixel src BORDER_WRAP (mx + real (width src), my) = remap_pixel src BORDER_WRAP (mx, my)"
  by (simp add: remap_pixel_def Let_def tap_cols_period floor_add_nat)

lemma remap_pixel_period_y:
  "remap_pixel src BORDER_WRAP (mx, my + real (height src)) = remap_pixel src BORDER_WRAP (mx, my)"
  by (simp add: remap_pixel_def Let_def tap_rows_period floor_add_nat)

lemma tap_cols_wrap_range:
  "0 < w \<Longrightarrow> 0 \<le> fst (tap_cols BORDER_WRAP w mx) \<and> fst (tap_cols BORDER_WRAP w mx) < int w
     \<and> 0 \<le> snd (tap_cols BORDER_WRAP w mx) \<and> snd (tap_cols BORDER_WRAP w mx) < int w"
  by (simp add: tap_cols_def)

lemma tap_rows_wrap_range:
  "0 < h \<Longrightarrow> 0 \<le> fst (tap_rows BORDER_WRAP h my) \<and> fst (tap_rows BORDER_WRAP h my) < int h
     \<and> 0 \<le> snd (tap_rows BORDER_WRAP h my) \<and> snd (tap_rows BORDER_WRAP h my) < int h"
  by (simp add: tap_rows_def)

lemma nth_linspace: "i < n \<Longrightarrow> linspace a b n ! i = a + real i * ((b - a) / real (n - 1))"
  by (auto simp: linspace_def)

lemma output_pixel_eq:
  assumes "has_shape pano h w c" "0 < h" "0 < w"
    and "tan (deg2rad fov_deg / 2) \<noteq> 0" "0 < out_w" "0 < out_h"
    and "i < nat out_h" "j < nat out_w"
  shows "output_pixel pano yaw_deg pitch_deg fov_deg out_w out_h i j =
     Some (remap_pixel pano BORDER_WRAP
             (source_point pano yaw_deg pitch_deg fov_deg out_w out_h i j))"
  unfolding output_pixel_def perspective_returns [OF assms(1-6)]
  using assms(7,8)
  by (simp add: meshgrid_def length_linspace source_point_def grid_point_def
      has_shape_height [OF assms(1)] has_shape_width [OF assms(1,2)])

text \<open>
  Claim C8, as amended. \<^verbatim>\<open>perspective_from_equirect\<close> passes the one border mode
  \<^verbatim>\<open>BORDER_WRAP\<close> to \<^verbatim>\<open>cv2.remap\<close>, and clamps nothing itself. So for every output pixel, with
  source point \<open>(mx, my)\<close>, the two source columns are \<open>floor mx\<close> and \<open>floor mx + 1\<close> modulo
  the panorama's width, and the two source rows are \<open>floor my\<close> and \<open>floor my + 1\<close> modulo
  the panorama's height: the sample is cyclic in both directions, with period the width
  horizontally and period the height vertically.
\<close>

theorem view_samples_wrap_both_axes:
  assumes "has_shape pano h w c" "0 < h" "0 < w"
    and "tan (deg2rad fov_deg / 2) \<noteq> 0" "0 < out_w" "0 < out_h"
    and "i < nat out_h" "j < nat out_w"
    and "source_point pano yaw_deg pitch_deg fov_deg out_w out_h i j = (mx, my)"
  shows "output_pixel pano yaw_deg pitch_deg fov_deg out_w out_h i j =
           Some (remap_pixel pano BORDER_WRAP (mx, my))
    \<and> tap_cols BORDER_WRAP w mx = (\<lfloor>mx\<rfloor> mod int w, (\<lfloor>mx\<rfloor> + 1) mod int w)
    \<and> tap_rows BORDER_WRAP h my = (\<lfloor>my\<rfloor> mod int h, (\<lfloor>my\<rfloor> + 1) mod int h)
    \<and> remap_pixel pano BORDER_WRAP (mx + real w, my) = remap_pixel pano BORDER_WRAP (mx, my)
    \<and> remap_pixel pano BORDER_WRAP (mx, my + real h) = remap_pixel pano BORDER_WRAP (mx, my)"
proof (intro conjI)
  show "output_pixel pano yaw_deg pitch_deg fov_deg out_w out_h i j =
           Some (remap_pixel pano BORDER_WRAP (mx, my))"
    using output_pixel_eq [OF assms(1-8)] assms(9) by simp
  show "tap_cols BORDER_WRAP w mx = (\<lfloor>mx\<rfloor> mod int w, (\<lfloor>mx\<rfloor> + 1) mod int w)"
    by (simp add: tap_cols_def)
  show "tap_rows BORDER_WRAP h my = (\<lfloor>my\<rfloor> mod int h, (\<lfloor>my\<rfloor> + 1) mod int h)"
    by (simp add: tap_rows_def)
  show "remap_pixel pano BORDER_WRAP (mx + real w, my) = remap_pixel pano BORDER_WRAP (mx, my)"
    using remap_pixel_period_x [of pano mx my] has_shape_width [OF assms(1,2)] by simp
  show "remap_pixel pano BORDER_WRAP (mx, my + real h) = remap_pixel pano BORDER_WRAP (mx, my)"
    using remap_pixel_period_y [of pano mx my] has_shape_height [OF assms(1)] by simp
qed

lemma ray_center:
  "0 < f \<Longrightarrow> ray yaw pitch f (0, 0) = (cos pitch * sin yaw, - sin pitch, cos pitch * cos yaw)"
  by (simp add: ray_def Let_def)

lemma grid_point_3_center: "grid_point 3 3 1 1 = (0, 0)"
  by (simp add: grid_point_def nth_linspace)

lemma source_point_nadir: "source_point two_row_pano 0 90 90 3 3 1 1 = (2, 2)"
proof -
  have t: "tan (deg2rad 90 / 2) = 1"
    using tan_45 by (simp add: deg2rad_def)
  have r: "ray (deg2rad 0) (deg2rad 90) (3 / 2) (0, 0) = (0, - 1, 0)"
    by (simp add: ray_center deg2rad_def)
  show ?thesis
    unfolding source_point_def grid_point_3_center t
    by (simp add: pano_coords_def ray_lon_def ray_lat_def r atan2_def Let_def
        two_row_pano_def width_def height_def)
qed

theorem view_samples_wrap_both_axes_witness:
  "has_shape two_row_pano 2 4 1 \<and> tan (deg2rad 90 / 2) \<noteq> 0
   \<and> source_point two_row_pano 0 90 90 3 3 1 1 = (2, 2)
   \<and> output_pixel two_row_pano 0 90 90 3 3 1 1 =
         Some (remap_pixel two_row_pano BORDER_WRAP (2, 2))
   \<and> tap_rows BORDER_WRAP 2 2 = (\<lfloor>2 :: real\<rfloor> mod int 2, (\<lfloor>2 :: real\<rfloor> + 1) mod int 2)
   \<and> remap_pixel two_row_pano BORDER_WRAP (2, 2 + real 2) =
         remap_pixel two_row_pano BORDER_WRAP (2, 2)"
proof -
  have s: "has_shape two_row_pano 2 4 1"
    by (simp add: has_shape_def two_row_pano_def)
  have t: "tan (deg2rad 90 / 2) \<noteq> 0"
    using tan_45 by (simp add: deg2rad_def)
  have "output_pixel two_row_pano 0 90 90 3 3 1 1 =
           Some (remap_pixel two_row_pano BORDER_WRAP (2, 2))
    \<and> tap_cols BORDER_WRAP 4 2 = (\<lfloor>2 :: real\<rfloor> mod int 4, (\<lfloor>2 :: real\<rfloor> + 1) mod int 4)
    \<and> tap_rows BORDER_WRAP 2 2 = (\<lfloor>2 :: real\<rfloor> mod int 2, (\<lfloor>2 :: real\<rfloor> + 1) mod int 2)
    \<and> remap_pixel two_row_pano BORDER_WRAP (2 + real 4, 2) =
          remap_pixel two_row_pano BORDER_WRAP (2, 2)
    \<and> remap_pixel two_row_pano BORDER_WRAP (2, 2 + real 2) =
          remap_pixel two_row_pano BORDER_WRAP (2, 2)"
    by (rule view_samples_wrap_both_axes [OF s _ _ t _ _ _ _ source_point_nadir]) simp_all
  with s t source_point_nadir show ?thesis
    by (elim conjE) (intro conjI)
qed

text \<open>
  Claim C8 as stated fails in its vertical part. Panorama of two rows (top 10, bottom 20),
  yaw 0, pitch 90, field of view 90, output \<open>3 x 3\<close>: the ray of the middle output pixel
  ends at the pole row coordinate \<open>y_pano = 2 = panoHeight\<close>. Clamping would read row 1
  twice; the call reads rows 0 and 1, and the pixel gets the value 10 of row 0, the
  opposite edge of the panorama.
\<close>

theorem vertical_wrap_counterexample:
  "source_point two_row_pano 0 90 90 3 3 1 1 = (2, 2)
   \<and> tap_rows BORDER_REPLICATE (height two_row_pano) 2 = (1, 1)
   \<and> tap_rows BORDER_WRAP (height two_row_pano) 2 = (0, 1)
   \<and> output_pixel two_row_pano 0 90 90 3 3 1 1 = Some [10]"
proof -
  have s: "has_shape two_row_pano 2 4 1"
    by (simp add: has_shape_def two_row_pano_def)
  have t: "tan (deg2rad 90 / 2) \<noteq> 0"
    using tan_45 by (simp add: deg2rad_def)
  have "output_pixel two_row_pano 0 90 90 3 3 1 1 =
          Some (remap_pixel two_row_pano BORDER_WRAP (2, 2))"
    using output_pixel_eq [OF s _ _ t, of 3 3 1 1 0 90] source_point_nadir by simp
  moreover have "remap_pixel two_row_pano BORDER_WRAP (2, 2) = [10]"
    by (simp add: remap_pixel_def Let_def tap_cols_def tap_rows_def blend_def pixel_at_def
        two_row_pano_def width_def height_def)
  ultimately show ?thesis
    using source_point_nadir
    by (simp add: tap_rows_def two_row_pano_def height_def)
qed

section \<open>Properties of the panorama files and the four views\<close>

lemma views_loop_keeps:
  "views_loop url_for pano image_id out_w out_h fov_deg pitch_deg names yaws results s = (r, s')
     \<Longrightarrow>
     requests_made s' = requests_made s \<and> pano_files s' = pano_files s"
  by (induction yaws arbitrary: results s)
     (auto simp: Let_def split: sum.splits)

lemma load_pano_present:
  "pano_files s (pano_path image_id) = Some b \<Longrightarrow>
     load_pano net decode image_id image_url s = (Inr (decode b), s)"
  by (simp add: load_pano_def)

lemma load_pano_then_present:
  assumes "load_pano net decode image_id image_url s = (Inr a, s1)"
  shows "\<exists>b. pano_files s1 (pano_path image_id) = Some b \<and> a = decode b"
  using assms
  by (auto simp: load_pano_def Let_def split: option.splits http_response.splits if_splits)

text \<open>
  Claim C7. When the file of the panorama of an image id exists, the load returns the
  decoded file and leaves the state as it is: nothing is requested from the network, in the
  load and in the whole of \<^verbatim>\<open>generate_normal_views_for_pano\<close>, whatever the network would
  answer. So after a load that returned, a second load for the same id, with any URL and
  any network, returns the same panorama and requests nothing.
\<close>

theorem load_pano_idempotent:
  "(pano_files s (pano_path image_id) = Some b \<longrightarrow>
      load_pano net decode image_id image_url s = (Inr (decode b), s)
      \<and> requests_made
            (snd (generate_normal_views_for_pano net decode url_for image_id image_url s))
          = requests_made s)
   \<and> (load_pano net decode image_id image_url s = (Inr a, s1) \<longrightarrow>
        load_pano net2 decode image_id url2 s1 = (Inr a, s1))"
proof (intro conjI impI)
  assume p: "pano_files s (pano_path image_id) = Some b"
  then show l: "load_pano net decode image_id image_url s = (Inr (decode b), s)"
    by (rule load_pano_present)
  show "requests_made
          (snd (generate_normal_views_for_pano net decode url_for image_id image_url s))
          = requests_made s"
  proof (cases "decode b")
    case None
    then show ?thesis by (simp add: generate_normal_views_for_pano_def l)
  next
    case (Some pano)
    obtain r s' where v: "views_loop url_for pano image_id 800 600 90 0
        [(0, ''front''), (90, ''right''), (180, ''back''), (270, ''left'')]
        [0, 90, 180, 270] Map.empty s = (r, s')"
      by (cases "views_loop url_for pano image_id 800 600 90 0
        [(0, ''front''), (90, ''right''), (180, ''back''), (270, ''left'')]
        [0, 90, 180, 270] Map.empty s") blast
    from views_loop_keeps [OF v] have "requests_made s' = requests_made s" by simp
    then show ?thesis
      by (simp add: generate_normal_views_for_pano_def l Some Let_def v del: views_loop.simps)
  qed
next
  assume "load_pano net decode image_id image_url s = (Inr a, s1)"
  then obtain b where "pano_files s1 (pano_path image_id) = Some b" "a = decode b"
    using load_pano_then_present by blast
  then show "load_pano net2 decode image_id url2 s1 = (Inr a, s1)"
    by (simp add: load_pano_present)
qed

theorem load_pano_idempotent_witness:
  "pano_files (store_with ''p1'' [255, 216]) (pano_path ''p1'') = Some [255, 216]
   \<and> load_pano offline decode_two_row ''p1'' ''http://x'' (store_with ''p1'' [255, 216])
       = (Inr (Some two_row_pano), store_with ''p1'' [255, 216])
   \<and> load_pano offline decode_two_row ''p1'' ''http://y'' (store_with ''p1'' [255, 216])
       = (Inr (Some two_row_pano), store_with ''p1'' [255, 216])"
proof -
  have p: "pano_files (store_with ''p1'' [255, 216]) (pano_path ''p1'') = Some [255, 216]"
    by (simp add: store_with_def)
  have d: "decode_two_row [255, 216] = Some two_row_pano"
    by (simp add: decode_two_row_def)
  from load_pano_idempotent [where s = "store_with ''p1'' [255, 216]" and image_id = "''p1''"
      and b = "[255, 216]" and net = offline and decode = decode_two_row
      and image_url = "''http://x''" and a = "Some two_row_pano"
      and ?s1.0 = "store_with ''p1'' [255, 216]" and ?net2.0 = offline
      and ?url2.0 = "''http://y''"] p d
  show ?thesis by simp
qed

lemma deg2rad_values:
  "deg2rad 0 = 0" "deg2rad 90 = pi / 2" "deg2rad 180 = pi" "deg2rad 270 = 3 / 2 * pi"
  "deg2rad 90 / 2 = pi / 4"
  by (simp_all add: deg2rad_def)

lemma atan2_scale: "0 < n \<Longrightarrow> atan2 (a / n) (b / n) = atan2 a b"
  by (simp add: atan2_def zero_less_divide_iff divide_less_0_iff zero_le_divide_iff)

lemma atan2_diagonals:
  "atan2 (- 400) 400 = - (pi / 4)" "atan2 400 400 = pi / 4"
  "atan2 400 (- 400) = 3 * pi / 4" "atan2 (- 400) (- 400) = - (3 * pi / 4)"
  by (simp_all add: atan2_def arctan_minus arctan_one)

lemma ray_level:
  assumes "0 < f"
  shows "ray_lon yaw 0 f (x, y) = atan2 (x * cos yaw + f * sin yaw) (- x * sin yaw + f * cos yaw)"
proof -
  let ?n = "sqrt (x * x + y * y + f * f)"
  have "0 < x * x + y * y + f * f"
    using assms by (simp add: add_nonneg_pos)
  then have n: "0 < ?n" by simp
  have "ray_lon yaw 0 f (x, y) =
          atan2 ((x * cos yaw + f * sin yaw) / ?n) ((- x * sin yaw + f * cos yaw) / ?n)"
    by (simp add: ray_lon_def ray_def Let_def add_divide_distrib diff_divide_distrib)
  then show ?thesis using atan2_scale [OF n] by simp
qed

lemma grid_edges:
  "fst (grid_point 800 600 i 0) = - 400"
  "fst (grid_point 800 600 i 799) = 400"
  by (simp_all add: grid_point_def nth_linspace)

lemma view_lon_eq:
  "view_lon yaw_deg i j =
     atan2 (fst (grid_point 800 600 i j) * cos (deg2rad yaw_deg) + 400 * sin (deg2rad yaw_deg))
           (- fst (grid_point 800 600 i j) * sin (deg2rad yaw_deg) + 400 * cos (deg2rad yaw_deg))"
proof -
  have f: "0.5 * real_of_int 800 / tan (deg2rad 90 / 2) = 400"
    by (simp add: deg2rad_values tan_45)
  show ?thesis
    unfolding view_lon_def f deg2rad_values(1)
    using ray_level [of 400 "deg2rad yaw_deg" "fst (grid_point 800 600 i j)" "snd (grid_point 800 600 i j)"]
    by simp
qed

lemma sin_cos_270: "sin (3 * pi / 2) = - 1" "cos (3 * pi / 2) = 0"
  using sin_3over2_pi cos_3over2_pi by (simp_all add: mult.commute)

lemma view_edges:
  "view_lon 0 i 0 = - (pi / 4)" "view_lon 0 i 799 = pi / 4"
  "view_lon 90 i 0 = pi / 4" "view_lon 90 i 799 = 3 * pi / 4"
  "view_lon 180 i 0 = 3 * pi / 4" "view_lon 180 i 799 = - (3 * pi / 4)"
  "view_lon 270 i 0 = - (3 * pi / 4)" "view_lon 270 i 799 = - (pi / 4)"
  unfolding view_lon_eq deg2rad_values
  by (simp_all add: grid_edges atan2_diagonals sin_cos_270)

lemma fields_tile:
  assumes "0 \<le> theta" "theta < 360"
  shows "\<exists>!yaw. yaw \<in> set [0, 90, 180, 270 :: int] \<and> in_field (real_of_int yaw) 90 theta"
proof -
  consider "theta < 45" | "45 \<le> theta" "theta < 135" | "135 \<le> theta" "theta < 225"
    | "225 \<le> theta" "theta < 315" | "315 \<le> theta"
    by linarith
  then show ?thesis
  proof cases
    case 1
    with assms show ?thesis by (intro ex1I [of _ 0]) (auto simp: in_field_def)
  next
    case 2
    with assms show ?thesis by (intro ex1I [of _ 90]) (auto simp: in_field_def)
  next
    case 3
    with assms show ?thesis by (intro ex1I [of _ 180]) (auto simp: in_field_def)
  next
    case 4
    with assms show ?thesis by (intro ex1I [of _ 270]) (auto simp: in_field_def)
  next
    case 5
    with assms show ?thesis by (intro ex1I [of _ 0]) (auto simp: in_field_def)
  qed
qed

lemma grid_x_range:
  assumes "j < 799"
  shows "- 400 \<le> fst (grid_point 800 600 i j) \<and> fst (grid_point 800 600 i j) < 400"
proof -
  have "fst (grid_point 800 600 i j) = - 400 + real j * (800 / 799)"
    using assms by (simp add: grid_point_def nth_linspace)
  moreover have "real j < 799" using assms by simp
  ultimately show ?thesis by simp
qed

lemma arctan_ge_quarter: "1 \<le> y \<Longrightarrow> pi / 4 \<le> arctan y"
  using arctan_monotone' [of 1 y] by (simp add: arctan_one)

lemma arctan_lt_quarter: "y < 1 \<Longrightarrow> arctan y < pi / 4"
  using arctan_monotone [of y 1] by (simp add: arctan_one)

lemma arctan_ge_minus_quarter: "- 1 \<le> y \<Longrightarrow> - (pi / 4) \<le> arctan y"
  using arctan_monotone' [of "- 1" y] by (simp add: arctan_one arctan_minus)

lemma arctan_lt_minus_quarter: "y < - 1 \<Longrightarrow> arctan y < - (pi / 4)"
  using arctan_monotone [of y "- 1"] by (simp add: arctan_one arctan_minus)

lemma atan2_front:
  assumes "- 400 \<le> x" "x < 400"
  shows "- (pi / 4) \<le> atan2 x 400 \<and> atan2 x 400 < pi / 4"
proof -
  have "- 1 \<le> x / 400" "x / 400 < 1" using assms by simp_all
  then show ?thesis
    using arctan_ge_minus_quarter arctan_lt_quarter by (simp add: atan2_def)
qed

lemma atan2_right:
  assumes "- 400 \<le> x" "x < 400"
  shows "pi / 4 \<le> atan2 400 (- x) \<and> atan2 400 (- x) < 3 * pi / 4"
proof -
  consider "x < 0" | "x = 0" | "0 < x" by linarith
  then show ?thesis
  proof cases
    case 1
    then have "1 \<le> 400 / (- x)" using assms by (simp add: field_simps)
    then have "pi / 4 \<le> arctan (400 / (- x))" by (rule arctan_ge_quarter)
    moreover have "arctan (400 / (- x)) < pi / 2" by (rule arctan_ubound)
    ultimately show ?thesis using 1 by (simp add: atan2_def)
  next
    case 2
    then show ?thesis by (simp add: atan2_def)
  next
    case 3
    then have "400 / (- x) < - 1" using assms by (simp add: field_simps)
    then have "arctan (400 / (- x)) < - (pi / 4)" by (rule arctan_lt_minus_quarter)
    moreover have "- (pi / 2) < arctan (400 / (- x))" by (rule arctan_lbound)
    ultimately show ?thesis using 3 by (simp add: atan2_def)
  qed
qed

lemma atan2_back:
  assumes "- 400 \<le> x" "x < 400"
  shows "(3 * pi / 4 \<le> atan2 (- x) (- 400) \<and> atan2 (- x) (- 400) \<le> pi)
       \<or> (- pi < atan2 (- x) (- 400) \<and> atan2 (- x) (- 400) < - (3 * pi / 4))"
proof (cases "x \<le> 0")
  case True
  then have "- 1 \<le> x / 400" "x / 400 \<le> 0" using assms by simp_all
  then have "- (pi / 4) \<le> arctan (x / 400)" "arctan (x / 400) \<le> 0"
    using arctan_ge_minus_quarter by simp_all
  then show ?thesis using True by (simp add: atan2_def)
next
  case False
  then have "0 < x / 400" "x / 400 < 1" using assms by simp_all
  then have "0 < arctan (x / 400)" "arctan (x / 400) < pi / 4"
    using arctan_lt_quarter by simp_all
  then show ?thesis using False by (simp add: atan2_def)
qed

lemma atan2_left:
  assumes "- 400 \<le> x" "x < 400"
  shows "- (3 * pi / 4) \<le> atan2 (- 400) x \<and> atan2 (- 400) x < - (pi / 4)"
proof -
  consider "x < 0" | "x = 0" | "0 < x" by linarith
  then show ?thesis
  proof cases
    case 1
    then have "1 \<le> - 400 / x" using assms by (simp add: field_simps)
    then have "pi / 4 \<le> arctan (- 400 / x)" by (rule arctan_ge_quarter)
    moreover have "arctan (- 400 / x) < pi / 2" by (rule arctan_ubound)
    ultimately show ?thesis using 1 by (simp add: atan2_def)
  next
    case 2
    then show ?thesis by (simp add: atan2_def)
  next
    case 3
    then have "- 400 / x < - 1" using assms by (simp add: field_simps)
    then have "arctan (- 400 / x) < - (pi / 4)" by (rule arctan_lt_minus_quarter)
    moreover have "- (pi / 2) < arctan (- 400 / x)" by (rule arctan_lbound)
    ultimately show ?thesis using 3 by (simp add: atan2_def)
  qed
qed

lemma degrees_mono: "a \<le> b \<Longrightarrow> degrees a \<le> degrees b"
  by (simp add: degrees_def divide_right_mono)

lemma degrees_strict_mono: "a < b \<Longrightarrow> degrees a < degrees b"
  by (simp add: degrees_def divide_strict_right_mono)

lemma degrees_values:
  "degrees (pi / 4) = 45" "degrees (- (pi / 4)) = - 45" "degrees (3 * pi / 4) = 135"
  "degrees (- (3 * pi / 4)) = - 135" "degrees pi = 180" "degrees (- pi) = - 180"
  by (simp_all add: degrees_def)

lemma view_fields:
  assumes "j < 799"
  shows "in_field 0 90 (degrees (view_lon 0 i j))"
    and "in_field 90 90 (degrees (view_lon 90 i j))"
    and "in_field 180 90 (degrees (view_lon 180 i j))"
    and "in_field 270 90 (degrees (view_lon 270 i j))"
proof -
  let ?x = "fst (grid_point 800 600 i j)"
  have x: "- 400 \<le> ?x" "?x < 400" using grid_x_range [OF assms] by simp_all
  have l0: "view_lon 0 i j = atan2 ?x 400"
    unfolding view_lon_eq deg2rad_values by simp
  have l90: "view_lon 90 i j = atan2 400 (- ?x)"
    unfolding view_lon_eq deg2rad_values by simp
  have l180: "view_lon 180 i j = atan2 (- ?x) (- 400)"
    unfolding view_lon_eq deg2rad_values by simp
  have l270: "view_lon 270 i j = atan2 (- 400) ?x"
    unfolding view_lon_eq deg2rad_values by (simp add: sin_cos_270)
  show "in_field 0 90 (degrees (view_lon 0 i j))"
    using atan2_front [OF x] degrees_mono [of "- (pi / 4)" "atan2 ?x 400"]
      degrees_strict_mono [of "atan2 ?x 400" "pi / 4"]
    unfolding l0 by (simp add: in_field_def degrees_values)
  show "in_field 90 90 (degrees (view_lon 90 i j))"
    using atan2_right [OF x] degrees_mono [of "pi / 4" "atan2 400 (- ?x)"]
      degrees_strict_mono [of "atan2 400 (- ?x)" "3 * pi / 4"]
    unfolding l90 by (simp add: in_field_def degrees_values)
  show "in_field 180 90 (degrees (view_lon 180 i j))"
    using atan2_back [OF x] degrees_mono [of "3 * pi / 4" "atan2 (- ?x) (- 400)"]
      degrees_mono [of "atan2 (- ?x) (- 400)" pi]
      degrees_strict_mono [of "- pi" "atan2 (- ?x) (- 400)"]
      degrees_strict_mono [of "atan2 (- ?x) (- 400)" "- (3 * pi / 4)"]
    unfolding l180 by (auto simp: in_field_def degrees_values)
  show "in_field 270 90 (degrees (view_lon 270 i j))"
    using atan2_left [OF x] degrees_mono [of "- (3 * pi / 4)" "atan2 (- 400) ?x"]
      degrees_strict_mono [of "atan2 (- 400) ?x" "- (pi / 4)"]
    unfolding l270 by (simp add: in_field_def degrees_values)
qed

lemma view_pixels:
  assumes "has_shape pano h w c" "0 < h" "0 < w"
    and "tan (deg2rad fov_deg / 2) \<noteq> 0" "0 < out_w" "0 < out_h"
    and "perspective_from_equirect pano yaw_deg pitch_deg fov_deg out_w out_h = Inr v"
  shows "length v = nat out_h
    \<and> (\<forall>i<nat out_h. length (v ! i) = nat out_w
         \<and> (\<forall>j<nat out_w. v ! i ! j =
               remap_pixel pano BORDER_WRAP
                 (source_point pano yaw_deg pitch_deg fov_deg out_w out_h i j)))"
  using assms(7) unfolding perspective_returns [OF assms(1-6)]
  by (auto simp: meshgrid_def length_linspace source_point_def grid_point_def
      has_shape_height [OF assms(1)] has_shape_width [OF assms(1,2)])

lemma source_point_lon:
  "fst (source_point pano yaw_deg 0 90 800 600 i j) =
     (view_lon yaw_deg i j / (2 * pi) + 0.5) * real (width pano)"
  by (simp add: source_point_def pano_coords_def view_lon_def Let_def)

lemma view_paths_distinct:
  "distinct (map (view_path image_id) [''front'', ''right'', ''back'', ''left''])"
  by (simp add: view_path_def)

text \<open>
  Claim C9. For a panorama that was loaded (from its file or by download) and decodes to
  an image of positive height and width, \<^verbatim>\<open>generate_normal_views_for_pano\<close> returns, having
  written exactly four rasters, to four different files, under the names front, right, back
  and left, each name mapped to the URL of its file. The rasters are the results of
  \<^verbatim>\<open>perspective_from_equirect\<close> for the yaws 0, 90, 180 and 270 degrees in this order, each
  with pitch 0, field of view 90 degrees and resolution \<open>800 x 600\<close>. Every pixel of each
  raster is the sample of the panorama at the source point of that pixel, whose column is
  given by the longitude of the pixel's ray; in every row and in every column but the last,
  that longitude lies in the field of 90 degrees around the yaw of the raster, and the
  longitude at the last column is the longitude at the first column of the next raster
  (the first raster being next to the last). The four fields tile the full turn: every
  direction lies in the field of exactly one yaw.
\<close>

theorem four_views:
  assumes "load_pano net decode image_id image_url s = (Inr (Some pano), s1)"
    and "has_shape pano h w c" and "0 < h" and "0 < w"
  shows "\<exists>view.
      generate_normal_views_for_pano net decode url_for image_id image_url s =
        (Inr [''front'' \<mapsto> url_for (view_path image_id ''front''),
              ''right'' \<mapsto> url_for (view_path image_id ''right''),
              ''back'' \<mapsto> url_for (view_path image_id ''back''),
              ''left'' \<mapsto> url_for (view_path image_id ''left'')],
         s1\<lparr> view_files := (view_files s1)
               (view_path image_id ''front'' \<mapsto> view 0,
                view_path image_id ''right'' \<mapsto> view 90,
                view_path image_id ''back'' \<mapsto> view 180,
                view_path image_id ''left'' \<mapsto> view 270) \<rparr>)
    \<and> distinct (map (view_path image_id) [''front'', ''right'', ''back'', ''left''])
    \<and> (\<forall>yaw \<in> set [0, 90, 180, 270 :: int].
          perspective_from_equirect pano (real_of_int yaw) 0 90 800 600 = Inr (view yaw)
          \<and> length (view yaw) = 600
          \<and> (\<forall>i<600. length (view yaw ! i) = 800
               \<and> (\<forall>j<800.
                     view yaw ! i ! j =
                       remap_pixel pano BORDER_WRAP
                         (source_point pano (real_of_int yaw) 0 90 800 600 i j)
                   \<and> fst (source_point pano (real_of_int yaw) 0 90 800 600 i j) =
                       (view_lon (real_of_int yaw) i j / (2 * pi) + 0.5) * real w
                   \<and> (j < 799 \<longrightarrow>
                        in_field (real_of_int yaw) 90 (degrees (view_lon (real_of_int yaw) i j))))
               \<and> view_lon (real_of_int yaw) i 799 =
                   view_lon (real_of_int ((yaw + 90) mod 360)) i 0))
    \<and> (\<forall>theta. 0 \<le> theta \<and> theta < 360 \<longrightarrow>
          (\<exists>!yaw. yaw \<in> set [0, 90, 180, 270 :: int] \<and> in_field (real_of_int yaw) 90 theta))
    \<and> (\<forall>i. view_lon 0 i 0 = - (pi / 4)
           \<and> view_lon 0 i 799 = view_lon 90 i 0
           \<and> view_lon 90 i 799 = view_lon 180 i 0
           \<and> view_lon 180 i 799 = view_lon 270 i 0
           \<and> view_lon 270 i 799 = view_lon 0 i 0)"
proof -
  have t: "tan (deg2rad 90 / 2) \<noteq> 0"
    by (simp add: deg2rad_values tan_45)
  define view where "view yaw =
      (case perspective_from_equirect pano (real_of_int yaw) 0 90 800 600 of
         Inl e \<Rightarrow> [] | Inr v \<Rightarrow> v)" for yaw :: int
  have pv: "perspective_from_equirect pano (real_of_int yaw) 0 90 800 600 = Inr (view yaw)"
    for yaw
  proof -
    have "\<exists>v. perspective_from_equirect pano (real_of_int yaw) 0 90 800 600 = Inr v"
      using perspective_returns [OF assms(2,3,4) t, where out_w = 800 and out_h = 600
          and yaw_deg = "real_of_int yaw" and pitch_deg = 0]
      by simp
    then show ?thesis by (auto simp: view_def)
  qed
  have v0: "perspective_from_equirect pano 0 0 90 800 600 = Inr (view 0)"
    using pv [of 0] by simp
  have v90: "perspective_from_equirect pano 90 0 90 800 600 = Inr (view 90)"
    using pv [of 90] by simp
  have v180: "perspective_from_equirect pano 180 0 90 800 600 = Inr (view 180)"
    using pv [of 180] by simp
  have v270: "perspective_from_equirect pano 270 0 90 800 600 = Inr (view 270)"
    using pv [of 270] by simp
  have g: "generate_normal_views_for_pano net decode url_for image_id image_url s =
        (Inr [''front'' \<mapsto> url_for (view_path image_id ''front''),
              ''right'' \<mapsto> url_for (view_path image_id ''right''),
              ''back'' \<mapsto> url_for (view_path image_id ''back''),
              ''left'' \<mapsto> url_for (view_path image_id ''left'')],
         s1\<lparr> view_files := (view_files s1)
               (view_path image_id ''front'' \<mapsto> view 0,
                view_path image_id ''right'' \<mapsto> view 90,
                view_path image_id ''back'' \<mapsto> view 180,
                view_path image_id ''left'' \<mapsto> view 270) \<rparr>)"
    by (simp add: generate_normal_views_for_pano_def assms(1) Let_def v0 v90 v180 v270
        names_get_def)
  have px: "length (view yaw) = 600
    \<and> (\<forall>i<600. length (view yaw ! i) = 800
         \<and> (\<forall>j<800. view yaw ! i ! j =
               remap_pixel pano BORDER_WRAP
                 (source_point pano (real_of_int yaw) 0 90 800 600 i j)))" for yaw
    using view_pixels [OF assms(2,3,4) t _ _ pv [of yaw]] by simp
  have sl: "fst (source_point pano yd 0 90 800 600 i j) =
              (view_lon yd i j / (2 * pi) + 0.5) * real w" for yd i j
    using source_point_lon [of pano yd i j] has_shape_width [OF assms(2,3)] by simp
  let ?Q = "\<lambda>yaw :: int.
      perspective_from_equirect pano (real_of_int yaw) 0 90 800 600 = Inr (view yaw)
      \<and> length (view yaw) = 600
      \<and> (\<forall>i<600. length (view yaw ! i) = 800
           \<and> (\<forall>j<800.
                 view yaw ! i ! j =
                   remap_pixel pano BORDER_WRAP
                     (source_point pano (real_of_int yaw) 0 90 800 600 i j)
               \<and> fst (source_point pano (real_of_int yaw) 0 90 800 600 i j) =
                   (view_lon (real_of_int yaw) i j / (2 * pi) + 0.5) * real w
               \<and> (j < 799 \<longrightarrow>
                    in_field (real_of_int yaw) 90 (degrees (view_lon (real_of_int yaw) i j))))
           \<and> view_lon (real_of_int yaw) i 799 =
               view_lon (real_of_int ((yaw + 90) mod 360)) i 0)"
  have ch: "view_lon 0 i 799 = view_lon 90 i 0" "view_lon 90 i 799 = view_lon 180 i 0"
    "view_lon 180 i 799 = view_lon 270 i 0" "view_lon 270 i 799 = view_lon 0 i 0" for i
    by (simp_all add: view_edges)
  have q0: "?Q 0"
    using pv [of 0] px [of 0] view_fields(1) by (simp add: sl ch)
  have q90: "?Q 90"
    using pv [of 90] px [of 90] view_fields(2) by (simp add: sl ch)
  have q180: "?Q 180"
    using pv [of 180] px [of 180] view_fields(3) by (simp add: sl ch)
  have q270: "?Q 270"
    using pv [of 270] px [of 270] view_fields(4) by (simp add: sl ch)
  have q: "\<forall>yaw \<in> set [0, 90, 180, 270 :: int]. ?Q yaw"
  proof
    fix yaw :: int
    assume "yaw \<in> set [0, 90, 180, 270]"
    then consider "yaw = 0" | "yaw = 90" | "yaw = 180" | "yaw = 270" by auto
    then show "?Q yaw"
    proof cases
      case 1
      show ?thesis unfolding 1 by (rule q0)
    next
      case 2
      show ?thesis unfolding 2 by (rule q90)
    next
      case 3
      show ?thesis unfolding 3 by (rule q180)
    next
      case 4
      show ?thesis unfolding 4 by (rule q270)
    qed
  qed
  have e: "\<forall>i. view_lon 0 i 0 = - (pi / 4)
           \<and> view_lon 0 i 799 = view_lon 90 i 0
           \<and> view_lon 90 i 799 = view_lon 180 i 0
           \<and> view_lon 180 i 799 = view_lon 270 i 0
           \<and> view_lon 270 i 799 = view_lon 0 i 0"
    by (simp add: view_edges)
  have f: "\<forall>theta. 0 \<le> theta \<and> theta < 360 \<longrightarrow>
          (\<exists>!yaw. yaw \<in> set [0, 90, 180, 270 :: int] \<and> in_field (real_of_int yaw) 90 theta)"
    using fields_tile by blast
  show ?thesis
    by (rule exI [of _ view]) (intro conjI g view_paths_distinct q f e)
qed

theorem four_views_witness:
  "load_pano two_chunks decode_two_row ''p1'' ''http://x'' empty_store =
     (Inr (Some two_row_pano),
      \<lparr> pano_files = [pano_path ''p1'' \<mapsto> [255, 216]], view_files = Map.empty,
        requests_made = [''http://x''] \<rparr>)
   \<and> has_shape two_row_pano 2 4 1
   \<and> (\<exists>res s'. \<exists>view :: int \<Rightarrow> image.
         generate_normal_views_for_pano two_chunks decode_two_row plain_url ''p1'' ''http://x''
           empty_store = (Inr res, s')
         \<and> res ''front'' = Some ''/static/views/p1_front.jpg''
         \<and> view_files s' (view_path ''p1'' ''back'') = Some (view 180)
         \<and> perspective_from_equirect two_row_pano 180 0 90 800 600 = Inr (view 180)
         \<and> length (view 180) = 600
         \<and> requests_made s' = [''http://x''])"
proof -
  let ?s1 = "\<lparr> pano_files = [pano_path ''p1'' \<mapsto> [255, 216]], view_files = Map.empty,
        requests_made = [''http://x''] \<rparr>"
  have l: "load_pano two_chunks decode_two_row ''p1'' ''http://x'' empty_store =
     (Inr (Some two_row_pano), ?s1)"
    by (simp add: load_pano_def empty_store_def two_chunks_def decode_two_row_def Let_def)
  have sh: "has_shape two_row_pano 2 4 1"
    by (simp add: has_shape_def two_row_pano_def)
  from four_views [where url_for = plain_url, OF l sh] obtain view :: "int \<Rightarrow> image" where
    g: "generate_normal_views_for_pano two_chunks decode_two_row plain_url ''p1'' ''http://x''
          empty_store =
        (Inr [''front'' \<mapsto> plain_url (view_path ''p1'' ''front''),
              ''right'' \<mapsto> plain_url (view_path ''p1'' ''right''),
              ''back'' \<mapsto> plain_url (view_path ''p1'' ''back''),
              ''left'' \<mapsto> plain_url (view_path ''p1'' ''left'')],
         ?s1\<lparr> view_files := (view_files ?s1)
               (view_path ''p1'' ''front'' \<mapsto> view 0,
                view_path ''p1'' ''right'' \<mapsto> view 90,
                view_path ''p1'' ''back'' \<mapsto> view 180,
                view_path ''p1'' ''left'' \<mapsto> view 270) \<rparr>)"
    and q: "perspective_from_equirect two_row_pano 180 0 90 800 600 = Inr (view 180)
            \<and> length (view 180) = 600"
    by auto
  let ?res = "[''front'' \<mapsto> plain_url (view_path ''p1'' ''front''),
              ''right'' \<mapsto> plain_url (view_path ''p1'' ''right''),
              ''back'' \<mapsto> plain_url (view_path ''p1'' ''back''),
              ''left'' \<mapsto> plain_url (view_path ''p1'' ''left'')]"
  let ?s' = "?s1\<lparr> view_files := (view_files ?s1)
               (view_path ''p1'' ''front'' \<mapsto> view 0,
                view_path ''p1'' ''right'' \<mapsto> view 90,
                view_path ''p1'' ''back'' \<mapsto> view 180,
                view_path ''p1'' ''left'' \<mapsto> view 270) \<rparr>"
  have "?res ''front'' = Some ''/static/views/p1_front.jpg''"
    "view_files ?s' (view_path ''p1'' ''back'') = Some (view 180)"
    "requests_made ?s' = [''http://x'']"
    by (simp_all add: plain_url_def view_path_def)
  with l sh g q show ?thesis by blast
qed

end
